theory Spec2Isabelle
  imports Complex_Main
begin

section \<open>Surface detection and placement gating of the AR menu\<close>

text \<open>
  The development embeds the three surface detectors of the repository and their tap
  gates: the vision detector and the motion detector of the two revisions kept in
  \<^verbatim>\<open>SimpleCameraAR_20250715154843.tsx\<close>, and the plane bookkeeping of
  \<^verbatim>\<open>WebARMenu\<close>. A JavaScript \<^verbatim>\<open>number\<close> is modelled as a real, a
  \<^verbatim>\<open>Date.now()\<close> reading as an integer count of milliseconds, a typed-array element as
  a natural number, and a \<^verbatim>\<open>NaN\<close> (a read outside an array, a division of zero by zero)
  as \<open>None\<close>.
\<close>

subsection \<open>Vision detector: data\<close>

text \<open>\<^verbatim>\<open>ImageData\<close>: the RGBA bytes of a frame, row by row, and its dimensions.\<close>

record ImageData =
  data :: "nat list"
  width :: nat
  height :: nat

record SurfacePoint =
  sp_x :: real
  sp_y :: real
  sp_confidence :: real
  sp_depth :: real

definition gridSize :: nat where
  "gridSize = 16"

subsection \<open>Vision detector: grayscale conversion\<close>

text \<open>
  Storing a number into a \<^verbatim>\<open>Uint8Array\<close> truncates it towards zero and reduces it
  modulo 256.
\<close>

definition toUint8 :: "real \<Rightarrow> nat" where
  "toUint8 v = nat ((if 0 \<le> v then \<lfloor>v\<rfloor> else \<lceil>v\<rceil>) mod 256)"

text \<open>
  The luminance of the pixel whose bytes start at index \<open>i\<close>. A channel read past the
  end of the array is \<^verbatim>\<open>undefined\<close>, the sum is then \<^verbatim>\<open>NaN\<close>, and
  \<^verbatim>\<open>NaN\<close> is stored as 0.
\<close>

definition luminance :: "nat list \<Rightarrow> nat \<Rightarrow> nat" where
  "luminance d i =
     (if i + 2 < length d
      then toUint8 (0.299 * real (d ! i) + 0.587 * real (d ! (i + 1)) + 0.114 * real (d ! (i + 2)))
      else 0)"

text \<open>
  The loop \<^verbatim>\<open>for (i = 0; i < data.length; i += 4) grayscale[i / 4] = gray\<close> over a
  zero-filled array of \<open>width * height\<close> bytes. A store outside a typed array is
  ignored, as \<open>list_update\<close> does.
\<close>

function grayLoop :: "nat list \<Rightarrow> nat \<Rightarrow> nat list \<Rightarrow> nat list" where
  "grayLoop d i g = (if i < length d then grayLoop d (i + 4) (g[i div 4 := luminance d i]) else g)"
  by pat_completeness auto
termination
  by (relation "measure (\<lambda>(d, i, g). length d - i)") auto

definition grayscale :: "ImageData \<Rightarrow> nat list" where
  "grayscale img = grayLoop (data img) 0 (replicate (width img * height img) 0)"

subsection \<open>Vision detector: Sobel gradient and texture variance\<close>

text \<open>Reading a typed array: \<open>None\<close> stands for the \<^verbatim>\<open>undefined\<close> of an index out of range.\<close>

definition rd :: "nat list \<Rightarrow> int \<Rightarrow> real option" where
  "rd g i = (if 0 \<le> i \<and> i < int (length g) then Some (real (g ! nat i)) else None)"

text \<open>A weighted sum of array reads is \<^verbatim>\<open>NaN\<close> as soon as one read is out of range.\<close>

fun weighted :: "nat list \<Rightarrow> (real \<times> int) list \<Rightarrow> real option" where
  "weighted g [] = Some 0"
| "weighted g ((c, i) # ts) =
     (case rd g i of None \<Rightarrow> None
      | Some v \<Rightarrow> (case weighted g ts of None \<Rightarrow> None | Some s \<Rightarrow> Some (c * v + s)))"

definition sobelX :: "nat list \<Rightarrow> int \<Rightarrow> int \<Rightarrow> real option" where
  "sobelX g w idx = weighted g
     [(-1, idx - w - 1), (1, idx - w + 1),
      (-2, idx - 1), (2, idx + 1),
      (-1, idx + w - 1), (1, idx + w + 1)]"

definition sobelY :: "nat list \<Rightarrow> int \<Rightarrow> int \<Rightarrow> real option" where
  "sobelY g w idx = weighted g
     [(-1, idx - w - 1), (-2, idx - w), (-1, idx - w + 1),
      (1, idx + w - 1), (2, idx + w), (1, idx + w + 1)]"

definition magnitude :: "nat list \<Rightarrow> int \<Rightarrow> int \<Rightarrow> real option" where
  "magnitude g w idx =
     (case (sobelX g w idx, sobelY g w idx) of
        (Some gx, Some gy) \<Rightarrow> Some (sqrt (gx * gx + gy * gy))
      | _ \<Rightarrow> None)"

text \<open>The offsets of \<^verbatim>\<open>for (d = -8; d <= 8; d += 4)\<close>.\<close>

definition offsets :: "int list" where
  "offsets = [-8, -4, 0, 4, 8]"

text \<open>
  One round of the inner texture loop: the accumulator is the pair
  \<^verbatim>\<open>(textureVariance, sampleCount)\<close>, \<open>c\<close> is the centre value
  \<^verbatim>\<open>grayscale[idx]\<close>; a sample outside the array is skipped.
\<close>

definition textureStep :: "nat list \<Rightarrow> int \<Rightarrow> int \<Rightarrow> int \<Rightarrow> real \<Rightarrow> real \<times> nat \<Rightarrow> int \<times> int \<Rightarrow> real \<times> nat" where
  "textureStep g w xx yy c acc off =
     (let sampleIdx = (yy + fst off) * w + (xx + snd off)
      in if 0 \<le> sampleIdx \<and> sampleIdx < int (length g)
         then (fst acc + \<bar>real (g ! nat sampleIdx) - c\<bar>, snd acc + 1)
         else acc)"

definition textureSum :: "nat list \<Rightarrow> int \<Rightarrow> int \<Rightarrow> int \<Rightarrow> real \<Rightarrow> real \<times> nat" where
  "textureSum g w xx yy c =
     foldl (textureStep g w xx yy c) (0, 0) (concat (map (\<lambda>dy. map (\<lambda>dx. (dy, dx)) offsets) offsets))"

text \<open>
  \<^verbatim>\<open>textureVariance /= sampleCount\<close>. Zero by zero is \<^verbatim>\<open>NaN\<close>, and so is every
  difference with a centre read out of range.
\<close>

definition textureVariance :: "nat list \<Rightarrow> int \<Rightarrow> int \<Rightarrow> int \<Rightarrow> int \<Rightarrow> real option" where
  "textureVariance g w xx yy idx =
     (case rd g idx of
        None \<Rightarrow> None
      | Some c \<Rightarrow>
          (let (s, n) = textureSum g w xx yy c
           in if n = 0 then None else Some (s / real n)))"

subsection \<open>Vision detector: the grid scan\<close>

text \<open>
  What the body of the two grid loops does at the grid point \<open>(xx, yy)\<close>: the point
  pushed to \<^verbatim>\<open>surfaces\<close>, if any. A comparison with \<^verbatim>\<open>NaN\<close> is false.
\<close>

definition samplePoint :: "nat list \<Rightarrow> nat \<Rightarrow> nat \<Rightarrow> nat \<Rightarrow> nat \<Rightarrow> SurfacePoint option" where
  "samplePoint g w h xx yy =
     (let idx = int yy * int w + int xx
      in case magnitude g (int w) idx of
           None \<Rightarrow> None
         | Some m \<Rightarrow>
             if m < 30
             then (case textureVariance g (int w) (int xx) (int yy) idx of
                     None \<Rightarrow> None
                   | Some tv \<Rightarrow>
                       if tv < 20
                       then Some \<lparr> sp_x = real xx / real w, sp_y = real yy / real h,
                                   sp_confidence = max 0 (min 1 ((40 - tv) / 40)),
                                   sp_depth = 1 - m / 255 \<rparr>
                       else None)
             else None)"

text \<open>The values of \<^verbatim>\<open>for (v = start; v < n - gridSize; v += gridSize)\<close>.\<close>

function gridFrom :: "nat \<Rightarrow> nat \<Rightarrow> nat list" where
  "gridFrom v n = (if int v < int n - int gridSize then v # gridFrom (v + gridSize) n else [])"
  by pat_completeness auto
termination
  by (relation "measure (\<lambda>(v, n). n - v)") (auto simp: gridSize_def)

definition detectSurfaces :: "ImageData \<Rightarrow> SurfacePoint list" where
  "detectSurfaces img =
     (let g = grayscale img; w = width img; h = height img
      in concat (map (\<lambda>yy. List.map_filter (\<lambda>xx. samplePoint g w h xx yy) (gridFrom gridSize w))
                     (gridFrom gridSize h)))"

text \<open>
  The aggregate confidence of \<^verbatim>\<open>processFrame\<close>: the mean of the confidences, 0 for
  no point.
\<close>

definition avgConfidence :: "SurfacePoint list \<Rightarrow> real" where
  "avgConfidence ps =
     (if length ps > 0 then foldl (\<lambda>s p. s + sp_confidence p) 0 ps / real (length ps) else 0)"

subsection \<open>Vision detector: frame processing and the tap handler\<close>

text \<open>
  A placed item. The identifier is the reading of \<^verbatim>\<open>Date.now()\<close> that
  \<^verbatim>\<open>toString\<close> renders; the motion revision has no \<^verbatim>\<open>timestamp\<close> field.
\<close>

record 'item PlacedItem =
  pi_id :: int
  pi_item :: 'item
  pi_position :: "real \<times> real"
  pi_scale :: real
  pi_rotation :: real
  pi_timestamp :: "int option"

record 'item VisionState =
  placedItems :: "'item PlacedItem list"
  surfacePoints :: "SurfacePoint list"
  surfaceConfidence :: real
  frameCount :: nat
  selectedItem :: 'item

definition visionInit :: "'item \<Rightarrow> 'item VisionState" where
  "visionInit it = \<lparr> placedItems = [], surfacePoints = [], surfaceConfidence = 0,
                      frameCount = 0, selectedItem = it \<rparr>"

text \<open>The state updates of \<^verbatim>\<open>processFrame\<close> for one frame (the drawing is left out).\<close>

definition processFrame :: "ImageData \<Rightarrow> 'item VisionState \<Rightarrow> 'item VisionState" where
  "processFrame imageData s =
     (let s1 = (if frameCount s mod 3 = 0
                then (let detectedSurfaces = detectSurfaces imageData
                      in s\<lparr> surfacePoints := detectedSurfaces,
                            surfaceConfidence := avgConfidence detectedSurfaces \<rparr>)
                else s)
      in s1\<lparr> frameCount := frameCount s + 1 \<rparr>)"

text \<open>A click: the pointer position and the bounding rectangle of the overlay.\<close>

record TapEvent =
  clientX :: real
  clientY :: real
  rectLeft :: real
  rectTop :: real
  rectWidth :: real
  rectHeight :: real

definition tapX :: "TapEvent \<Rightarrow> real" where
  "tapX e = ((clientX e - rectLeft e) / rectWidth e) * 100"

definition tapY :: "TapEvent \<Rightarrow> real" where
  "tapY e = ((clientY e - rectTop e) / rectHeight e) * 100"

text \<open>
  \<^verbatim>\<open>surfacePoints.some(...)\<close>. A rectangle of width or height 0 makes the tap
  coordinates infinite or \<^verbatim>\<open>NaN\<close>, and then no distance is below 0.1.
\<close>

definition nearSurface :: "SurfacePoint list \<Rightarrow> TapEvent \<Rightarrow> bool" where
  "nearSurface pts e =
     (rectWidth e \<noteq> 0 \<and> rectHeight e \<noteq> 0 \<and>
      list_ex (\<lambda>point.
          sqrt ((sp_x point - tapX e / 100)\<^sup>2 + (sp_y point - tapY e / 100)\<^sup>2) < 0.1
          \<and> sp_confidence point > 0.5) pts)"

text \<open>
  \<^verbatim>\<open>handleScreenTouch\<close> of the vision revision; \<open>now\<close> is the reading of the clock
  and \<open>rnd\<close> the value of \<^verbatim>\<open>Math.random()\<close>.
\<close>

definition handleScreenTouch :: "TapEvent \<Rightarrow> int \<Rightarrow> real \<Rightarrow> 'item VisionState \<Rightarrow> 'item VisionState" where
  "handleScreenTouch e now rnd s =
     (if surfaceConfidence s < 0.4 then s
      else if \<not> nearSurface (surfacePoints s) e then s
      else s\<lparr> placedItems := placedItems s @
                 [\<lparr> pi_id = now, pi_item = selectedItem s, pi_position = (tapX e, tapY e),
                    pi_scale = 1, pi_rotation = rnd * 360, pi_timestamp = Some now \<rparr>] \<rparr>)"

text \<open>The vision revision as a machine: frames, taps and the clear-all button.\<close>

datatype visionInput =
    FrameIn ImageData
  | TapIn TapEvent int real
  | ClearItems

fun visionStep :: "'item VisionState \<Rightarrow> visionInput \<Rightarrow> 'item VisionState" where
  "visionStep s (FrameIn imageData) = processFrame imageData s"
| "visionStep s (TapIn e now rnd) = handleScreenTouch e now rnd s"
| "visionStep s ClearItems = s\<lparr> placedItems := [] \<rparr>"

definition visionRun :: "'item VisionState \<Rightarrow> visionInput list \<Rightarrow> 'item VisionState" where
  "visionRun s ins = foldl visionStep s ins"

subsection \<open>Synthetic frames\<close>

text \<open>A frame given by its pixel function: \<open>f xx yy\<close> is the RGBA quadruple at column \<open>xx\<close>, row \<open>yy\<close>.\<close>

definition pixelBytes :: "nat \<times> nat \<times> nat \<times> nat \<Rightarrow> nat list" where
  "pixelBytes p = (case p of (r, g, b, a) \<Rightarrow> [r, g, b, a])"

definition mkImage :: "nat \<Rightarrow> nat \<Rightarrow> (nat \<Rightarrow> nat \<Rightarrow> nat \<times> nat \<times> nat \<times> nat) \<Rightarrow> ImageData" where
  "mkImage w h f =
     \<lparr> data = concat (map (\<lambda>k. pixelBytes (f (k mod w) (k div w))) [0..<w * h]),
       width = w, height = h \<rparr>"

definition white :: "nat \<times> nat \<times> nat \<times> nat" where
  "white = (255, 255, 255, 255)"

definition black :: "nat \<times> nat \<times> nat \<times> nat" where
  "black = (0, 0, 0, 255)"

text \<open>A frame of one colour.\<close>

definition uniformImage :: "nat \<Rightarrow> nat \<Rightarrow> nat \<times> nat \<times> nat \<times> nat \<Rightarrow> ImageData" where
  "uniformImage w h c = mkImage w h (\<lambda>xx yy. c)"

text \<open>The checkerboard of single pixels: neighbours in a row or a column alternate between white and black.\<close>

definition checkerboard :: "nat \<Rightarrow> nat \<Rightarrow> ImageData" where
  "checkerboard w h = mkImage w h (\<lambda>xx yy. if even (xx + yy) then white else black)"

text \<open>
  The checkerboard of squares of \<open>gridSize\<close> pixels: the corners of the squares are the
  points whose coordinates are both multiples of 16, among them every grid point.
\<close>

definition blockCheckerboard :: "nat \<Rightarrow> nat \<Rightarrow> ImageData" where
  "blockCheckerboard w h =
     mkImage w h (\<lambda>xx yy. if even (xx div gridSize + yy div gridSize) then white else black)"

text \<open>The grayscale value that the conversion stores for a pixel.\<close>

definition lum :: "nat \<times> nat \<times> nat \<times> nat \<Rightarrow> nat" where
  "lum p = (case p of (r, g, b, a) \<Rightarrow> toUint8 (0.299 * real r + 0.587 * real g + 0.114 * real b))"

subsection \<open>Motion detector\<close>

text \<open>
  A \<^verbatim>\<open>devicemotion\<close> event: the acceleration may be missing, and each of its axes may
  be \<^verbatim>\<open>null\<close>. A \<^verbatim>\<open>deviceorientation\<close> event likewise.
\<close>

record Acceleration =
  acc_x :: "real option"
  acc_y :: "real option"
  acc_z :: "real option"

record MotionEvent =
  accelerationIncludingGravity :: "Acceleration option"

record OrientationEvent =
  alpha :: "real option"
  beta :: "real option"
  gamma :: "real option"

text \<open>The component state of the motion revision.\<close>

record 'item MotionState =
  m_placedItems :: "'item PlacedItem list"
  surfaceDetected :: bool
  isCalibrating :: bool
  deviceStability :: real
  motionData :: "real \<times> real \<times> real"
  surfaceQuality :: real
  m_selectedItem :: 'item

definition motionInit :: "'item \<Rightarrow> 'item MotionState" where
  "motionInit it = \<lparr> m_placedItems = [], surfaceDetected = False, isCalibrating = True,
                      deviceStability = 0, motionData = (0, 0, 0), surfaceQuality = 0,
                      m_selectedItem = it \<rparr>"

text \<open>The variables local to one run of the effect, shared by its listeners.\<close>

record MotionLocals =
  mounted :: bool
  motionHistory :: "real list"
  lastMotionTime :: int

text \<open>\<^verbatim>\<open>motionHistory.push(m); if (motionHistory.length > 10) motionHistory.shift()\<close>\<close>

definition pushHistory :: "real list \<Rightarrow> real \<Rightarrow> real list" where
  "pushHistory hist m = (let h = hist @ [m] in if length h > 10 then tl h else h)"

text \<open>The two \<^verbatim>\<open>reduce\<close> calls and the clamp, on a history that is not empty.\<close>

definition historyAvg :: "real list \<Rightarrow> real" where
  "historyAvg hist = foldl (\<lambda>a b. a + b) 0 hist / real (length hist)"

definition historyVariance :: "real list \<Rightarrow> real" where
  "historyVariance hist =
     (let avg = historyAvg hist
      in foldl (\<lambda>sum val. sum + (val - avg)\<^sup>2) 0 hist / real (length hist))"

definition stabilityScore :: "real list \<Rightarrow> real" where
  "stabilityScore hist = max 0 (min 100 (100 - historyVariance hist * 10))"

text \<open>The classification of a sample on a gating tick.\<close>

definition qualifying :: "real \<Rightarrow> real \<Rightarrow> real \<Rightarrow> real \<Rightarrow> bool" where
  "qualifying stability ax ay az =
     (let isStable = stability > 70;
          isPointingDown = \<bar>az\<bar> > 8;
          hasGoodAngle = \<bar>ax\<bar> < 3 \<and> \<bar>ay\<bar> < 3
      in isStable \<and> isPointingDown \<and> hasGoodAngle)"

text \<open>
  \<^verbatim>\<open>motionListener\<close>. The listener is a closure: where its body names
  \<^verbatim>\<open>surfaceQuality\<close> it reads the state \<open>r\<close> of the render that installed it, while
  the setters act on the present state \<open>s\<close>. The effect that installs the listeners
  depends on \<^verbatim>\<open>surfaceQuality\<close>, so that after every change of it a new closure
  is installed; with the closure of the present render, \<open>r = s\<close>.
\<close>

definition motionListener ::
  "'item MotionState \<Rightarrow> MotionEvent \<Rightarrow> int \<Rightarrow> MotionLocals \<times> 'item MotionState
     \<Rightarrow> MotionLocals \<times> 'item MotionState" where
  "motionListener r event currentTime ls =
     (let l = fst ls; s = snd ls
      in if \<not> mounted l then ls
      else case accelerationIncludingGravity event of
        None \<Rightarrow> ls
      | Some a \<Rightarrow>
         (case (acc_x a, acc_y a, acc_z a) of
            (Some ax, Some ay, Some az) \<Rightarrow>
              (let motionMagnitude = sqrt (ax * ax + ay * ay + az * az);
                   hist = pushHistory (motionHistory l) motionMagnitude;
                   stability = stabilityScore hist;
                   l1 = l\<lparr> motionHistory := hist \<rparr>;
                   s1 = s\<lparr> deviceStability := stability, motionData := (ax, ay, az) \<rparr>
               in if currentTime - lastMotionTime l > 100
                  then (l1\<lparr> lastMotionTime := currentTime \<rparr>,
                        if qualifying stability ax ay az
                        then s1\<lparr> surfaceQuality := min 100 (surfaceQuality r + 5) \<rparr>
                        else s1\<lparr> surfaceQuality := max 0 (surfaceQuality r - 2) \<rparr>)
                  else (l1, s1))
          | _ \<Rightarrow> ls))"

text \<open>
  \<^verbatim>\<open>orientationListener\<close>: it reads \<^verbatim>\<open>deviceStability\<close> from its closure and
  updates \<^verbatim>\<open>surfaceQuality\<close> from its present value (\<^verbatim>\<open>prev => ...\<close>).
\<close>

definition orientationListener ::
  "'item MotionState \<Rightarrow> OrientationEvent \<Rightarrow> MotionLocals \<times> 'item MotionState
     \<Rightarrow> MotionLocals \<times> 'item MotionState" where
  "orientationListener r event ls =
     (let l = fst ls; s = snd ls
      in if \<not> mounted l then ls
      else case (beta event, gamma event) of
        (Some b, Some c) \<Rightarrow>
          (let isFlatish = \<bar>b - 90\<bar> < 30 \<and> \<bar>c\<bar> < 30
           in if isFlatish \<and> deviceStability r > 70
              then (l, s\<lparr> surfaceQuality := min 100 (surfaceQuality s + 2) \<rparr>)
              else ls)
      | _ \<Rightarrow> ls)"

text \<open>The callback of the 500ms \<^verbatim>\<open>stabilityTimer\<close>; it reads its closure only.\<close>

definition stabilityTick :: "'item MotionState \<Rightarrow> 'item MotionState \<Rightarrow> 'item MotionState" where
  "stabilityTick r s =
     (if surfaceQuality r > 80 \<and> deviceStability r > 70
      then (if \<not> surfaceDetected r
            then s\<lparr> surfaceDetected := True, isCalibrating := False \<rparr> else s)
      else if surfaceQuality r < 30
      then (if surfaceDetected r
            then s\<lparr> surfaceDetected := False, isCalibrating := True \<rparr> else s)
      else s)"

text \<open>\<^verbatim>\<open>handleScreenTouch\<close> of the motion revision.\<close>

definition handleScreenTouchMotion ::
  "TapEvent \<Rightarrow> int \<Rightarrow> real \<Rightarrow> 'item MotionState \<Rightarrow> 'item MotionState" where
  "handleScreenTouchMotion e now rnd s =
     (if \<not> surfaceDetected s \<or> isCalibrating s then s
      else s\<lparr> m_placedItems := m_placedItems s @
                 [\<lparr> pi_id = now, pi_item = m_selectedItem s, pi_position = (tapX e, tapY e),
                    pi_scale = 1, pi_rotation = rnd * 360, pi_timestamp = None \<rparr>] \<rparr>)"

text \<open>
  The motion detector as a machine. Its configuration is the closure state of the
  installed listeners, their local variables and the component state. An effect run
  (\<open>Install\<close>) takes the present state into the closure and starts with an empty history
  and the clock reading \<open>now\<close>.
\<close>

datatype motionInput =
    Motion MotionEvent int
  | Orientation OrientationEvent
  | Tick
  | Install int

record 'item MotionConfig =
  closure :: "'item MotionState"
  locals :: MotionLocals
  current :: "'item MotionState"

definition motionStart :: "'item \<Rightarrow> int \<Rightarrow> 'item MotionConfig" where
  "motionStart it now =
     \<lparr> closure = motionInit it,
       locals = \<lparr> mounted = True, motionHistory = [], lastMotionTime = now \<rparr>,
       current = motionInit it \<rparr>"

fun motionStep :: "'item MotionConfig \<Rightarrow> motionInput \<Rightarrow> 'item MotionConfig" where
  "motionStep c (Motion ev t) =
     (let ls = motionListener (closure c) ev t (locals c, current c)
      in c\<lparr> locals := fst ls, current := snd ls \<rparr>)"
| "motionStep c (Orientation ev) =
     (let ls = orientationListener (closure c) ev (locals c, current c)
      in c\<lparr> locals := fst ls, current := snd ls \<rparr>)"
| "motionStep c Tick = c\<lparr> current := stabilityTick (closure c) (current c) \<rparr>"
| "motionStep c (Install t) =
     c\<lparr> closure := current c,
        locals := \<lparr> mounted = True, motionHistory = [], lastMotionTime = t \<rparr> \<rparr>"

definition motionRun :: "'item MotionConfig \<Rightarrow> motionInput list \<Rightarrow> 'item MotionConfig" where
  "motionRun c ins = foldl motionStep c ins"

text \<open>The range of \<^verbatim>\<open>surfaceQuality\<close>.\<close>

definition qualityInRange :: "'item MotionState \<Rightarrow> bool" where
  "qualityInRange s = (0 \<le> surfaceQuality s \<and> surfaceQuality s \<le> 100)"

text \<open>The population variance of the specification: the mean of the squared deviations from the mean.\<close>

definition populationVariance :: "real list \<Rightarrow> real" where
  "populationVariance xs =
     (\<Sum>v\<leftarrow>xs. (v - sum_list xs / real (length xs))\<^sup>2) / real (length xs)"

subsection \<open>Native detector: plane bookkeeping\<close>

type_synonym vec3 = "real \<times> real \<times> real"

text \<open>
  A tracked plane. \<open>dp_plane\<close> stands for the identity of the platform's
  \<^verbatim>\<open>XRPlane\<close> object, which \<^verbatim>\<open>===\<close> compares.
\<close>

record DetectedPlane =
  dp_plane :: nat
  dp_id :: string
  dp_center :: vec3
  dp_normal :: vec3
  dp_bounds :: "real \<times> real"
  dp_confidence :: real
  dp_lastUpdated :: int

text \<open>
  What a frame delivers for one plane of \<^verbatim>\<open>frame.detectedPlanes\<close>: its identity, the
  pose if there is one (the position, and the up vector rotated by the orientation, which
  the three.js library computes), the polygon if there is one, and the random identifier
  that \<^verbatim>\<open>Math.random().toString(36)\<close> yields should a record be created.
\<close>

record PlaneReport =
  rp_plane :: nat
  rp_pose :: "(vec3 \<times> vec3) option"
  rp_polygon :: "vec3 list option"
  rp_freshId :: string

text \<open>
  The bounds of the polygon. The \<^verbatim>\<open>reduce\<close> starts from infinite bounds, which the
  first of the three or more points replaces.
\<close>

definition boundsStep :: "real \<times> real \<times> real \<times> real \<Rightarrow> vec3 \<Rightarrow> real \<times> real \<times> real \<times> real" where
  "boundsStep acc point =
     (case acc of (minX, maxX, minZ, maxZ) \<Rightarrow>
        (case point of (px, py, pz) \<Rightarrow> (min minX px, max maxX px, min minZ pz, max maxZ pz)))"

definition planeBounds :: "vec3 list option \<Rightarrow> real \<times> real" where
  "planeBounds polygon =
     (case polygon of
        None \<Rightarrow> (1, 1)
      | Some [] \<Rightarrow> (1, 1)
      | Some (p # ps) \<Rightarrow>
          if length (p # ps) \<ge> 3
          then (case foldl boundsStep (fst p, fst p, snd (snd p), snd (snd p)) ps of
                  (minX, maxX, minZ, maxZ) \<Rightarrow> (maxX - minX, maxZ - minZ))
          else (1, 1))"

text \<open>
  The update of an existing record is done in place: every holder of the object sees it.
  \<open>replaceFirst\<close> rewrites the first record of the plane, the one that
  \<^verbatim>\<open>find\<close> returns.
\<close>

fun replaceFirst :: "nat \<Rightarrow> DetectedPlane \<Rightarrow> DetectedPlane list \<Rightarrow> DetectedPlane list" where
  "replaceFirst p d [] = []"
| "replaceFirst p d (x # xs) = (if dp_plane x = p then d # xs else x # replaceFirst p d xs)"

text \<open>
  The body of the \<^verbatim>\<open>forEach\<close> for one reported plane. \<open>known\<close> is the array that
  the name \<^verbatim>\<open>detectedPlanes\<close> denotes in the callback, \<open>t\<close> the clock reading; the
  result is that array after the update in place, and the list \<^verbatim>\<open>newPlanes\<close>.
\<close>

definition observePlane ::
  "int \<Rightarrow> DetectedPlane list \<times> DetectedPlane list \<Rightarrow> PlaneReport
     \<Rightarrow> DetectedPlane list \<times> DetectedPlane list" where
  "observePlane t acc plane =
     (let known = fst acc; newPlanes = snd acc
      in case rp_pose plane of
        None \<Rightarrow> acc
      | Some (position, up) \<Rightarrow>
          (let center = position; normal = up; bounds = planeBounds (rp_polygon plane)
           in case find (\<lambda>dp. dp_plane dp = rp_plane plane) known of
                None \<Rightarrow>
                  (known,
                   newPlanes @
                     [\<lparr> dp_plane = rp_plane plane, dp_id = rp_freshId plane, dp_center = center,
                        dp_normal = normal, dp_bounds = bounds, dp_confidence = 1,
                        dp_lastUpdated = t \<rparr>])
              | Some detectedPlane \<Rightarrow>
                  (let updated = detectedPlane\<lparr> dp_center := center, dp_normal := normal,
                         dp_bounds := bounds,
                         dp_confidence := min (dp_confidence detectedPlane + 0.1) 1,
                         dp_lastUpdated := t \<rparr>
                   in (replaceFirst (rp_plane plane) updated known, newPlanes @ [updated]))))"

text \<open>The cleanup filter, at the clock reading \<open>now\<close>.\<close>

definition validPlanes :: "int \<Rightarrow> DetectedPlane list \<Rightarrow> DetectedPlane list" where
  "validPlanes now newPlanes =
     filter (\<lambda>plane. now - dp_lastUpdated plane < 5000 \<and> dp_confidence plane > 0.3) newPlanes"

text \<open>
  The plane section of the frame callback: the known array after the updates in place, and
  the list given to \<^verbatim>\<open>setDetectedPlanes\<close>. \<open>t\<close> is the clock during the
  \<^verbatim>\<open>forEach\<close>, \<open>t'\<close> the clock during the filter.
\<close>

definition trackPlanes ::
  "DetectedPlane list \<Rightarrow> PlaneReport list \<Rightarrow> int \<Rightarrow> int \<Rightarrow> DetectedPlane list \<times> DetectedPlane list" where
  "trackPlanes known reports t t' =
     (let acc = foldl (observePlane t) (known, []) reports
      in (fst acc, validPlanes t' (snd acc)))"

text \<open>
  The array that the callback sees, after the plane sections of a sequence of frames, each
  given by its reports and its two clock readings.
\<close>

definition trackFrames ::
  "DetectedPlane list \<Rightarrow> (PlaneReport list \<times> int \<times> int) list \<Rightarrow> DetectedPlane list" where
  "trackFrames known frames =
     foldl (\<lambda>k fr. fst (trackPlanes k (fst fr) (fst (snd fr)) (snd (snd fr)))) known frames"

text \<open>
  The relation between a record and a later state of it: the same plane, a confidence that
  has not decreased, and the cap of 1.
\<close>

definition tracks :: "DetectedPlane \<Rightarrow> DetectedPlane \<Rightarrow> bool" where
  "tracks a b = (dp_plane b = dp_plane a \<and> dp_confidence a \<le> dp_confidence b \<and> dp_confidence b \<le> 1)"

subsection \<open>Native detector: session state, reticle and placement\<close>

record 'item ARItem =
  ar_id :: int
  ar_item :: 'item
  ar_position :: vec3
  ar_alignedTo :: "vec3 option"

text \<open>
  \<open>loopPlanes\<close> is the array that the animation loop closes over when
  \<^verbatim>\<open>startARSession\<close> sets it up; \<open>detectedPlanes\<close> is the component state.
\<close>

record 'item NativeState =
  xrSession :: bool
  objModel :: bool
  reticle :: "(vec3 \<times> bool) option"
  detectedPlanes :: "DetectedPlane list"
  loopPlanes :: "DetectedPlane list"
  arItems :: "'item ARItem list"
  isScanning :: bool
  n_selectedItem :: 'item

definition nativeInit :: "'item \<Rightarrow> 'item NativeState" where
  "nativeInit it = \<lparr> xrSession = False, objModel = False, reticle = None, detectedPlanes = [],
                      loopPlanes = [], arItems = [], isScanning = True, n_selectedItem = it \<rparr>"

definition distanceTo :: "vec3 \<Rightarrow> vec3 \<Rightarrow> real" where
  "distanceTo a b =
     (case a of (ax, ay, az) \<Rightarrow> case b of (bx, by, bz) \<Rightarrow>
        sqrt ((ax - bx)\<^sup>2 + (ay - by)\<^sup>2 + (az - bz)\<^sup>2))"

text \<open>\<^verbatim>\<open>placeItem\<close>: every failed check of its first line returns without effect.\<close>

definition placeItem :: "int \<Rightarrow> 'item NativeState \<Rightarrow> 'item NativeState" where
  "placeItem now s =
     (if \<not> xrSession s \<or> \<not> objModel s then s
      else case reticle s of
        None \<Rightarrow> s
      | Some (position, visible) \<Rightarrow>
          if \<not> visible then s
          else (let pos = (fst position, fst (snd position) + 0.02, snd (snd position));
                    targetPlane = find (\<lambda>plane. distanceTo (dp_center plane) position < 0.5)
                                       (detectedPlanes s)
                in s\<lparr> arItems := arItems s @
                        [\<lparr> ar_id = now, ar_item = n_selectedItem s, ar_position = pos,
                           ar_alignedTo = map_option dp_normal targetPlane \<rparr>] \<rparr>))"

text \<open>
  The inputs of a session: the model has loaded, the session starts (the loop closes over
  the present plane list and the reticle is created invisible), a frame arrives with its
  reported planes, the two clock readings and the first hit-test position if any, the
  user taps, the session ends.
\<close>

datatype nativeInput =
    ModelLoaded
  | StartSession
  | Frame "PlaneReport list option" int int "vec3 option"
  | Tap int
  | SessionEnd

fun nativeStep :: "'item NativeState \<Rightarrow> nativeInput \<Rightarrow> 'item NativeState" where
  "nativeStep s ModelLoaded = s\<lparr> objModel := True \<rparr>"
| "nativeStep s StartSession =
     s\<lparr> xrSession := True, reticle := Some ((0, 0, 0), False), loopPlanes := detectedPlanes s \<rparr>"
| "nativeStep s (Frame reports t t' hit) =
     (let s1 = (case reports of
                  None \<Rightarrow> s
                | Some rs \<Rightarrow>
                    (let tr = trackPlanes (loopPlanes s) rs t t'
                     in s\<lparr> loopPlanes := fst tr, detectedPlanes := snd tr,
                           isScanning := (if length (snd tr) > 0 then False else isScanning s) \<rparr>))
      in case (hit, reticle s1) of
           (Some pos, Some r) \<Rightarrow> s1\<lparr> reticle := Some (pos, True) \<rparr>
         | _ \<Rightarrow> s1)"
| "nativeStep s (Tap now) = placeItem now s"
| "nativeStep s SessionEnd =
     s\<lparr> xrSession := False, detectedPlanes := [], arItems := [], isScanning := True \<rparr>"

definition nativeRun :: "'item NativeState \<Rightarrow> nativeInput list \<Rightarrow> 'item NativeState" where
  "nativeRun s ins = foldl nativeStep s ins"

section \<open>Properties of the vision detector\<close>

declare grayLoop.simps [simp del]
declare gridFrom.simps [simp del]

subsection \<open>The grayscale array of a frame\<close>

lemma grayLoop_length: "length (grayLoop d i g) = length g"
  by (induction d i g rule: grayLoop.induct) (subst grayLoop.simps, simp)

lemma grayLoop_nth:
  "k < length g \<Longrightarrow>
   grayLoop d (4 * j) g ! k = (if j \<le> k \<and> 4 * k < length d then luminance d (4 * k) else g ! k)"
proof (induction d "4 * j" g arbitrary: j rule: grayLoop.induct)
  case (1 d g)
  show ?case
  proof (cases "4 * j < length d")
    case True
    have step: "grayLoop d (4 * j) g = grayLoop d (4 * Suc j) (g[j := luminance d (4 * j)])"
      using True by (subst grayLoop.simps) (simp add: add.commute)
    have "grayLoop d (4 * Suc j) (g[j := luminance d (4 * j)]) ! k
          = (if Suc j \<le> k \<and> 4 * k < length d then luminance d (4 * k)
             else (g[j := luminance d (4 * j)]) ! k)"
      using "1.hyps"[of "Suc j"] True "1.prems" by simp
    then show ?thesis
      using step True "1.prems" by (cases "j = k") (auto simp: nth_list_update)
  next
    case False
    then show ?thesis
      by (subst grayLoop.simps) auto
  qed
qed

lemma concat_quads_length:
  "(\<And>k. length (F k) = 4) \<Longrightarrow> length (concat (map F [0..<n])) = 4 * n"
  by (induction n) simp_all

lemma concat_quads_nth:
  assumes "\<And>k. length (F k) = 4" and "k < n" and "j < 4"
  shows "concat (map F [0..<n]) ! (4 * k + j) = F k ! j"
  using assms(2)
proof (induction n)
  case 0
  then show ?case by simp
next
  case (Suc n)
  have len: "length (concat (map F [0..<n])) = 4 * n"
    using assms(1) by (rule concat_quads_length)
  show ?case
  proof (cases "k < n")
    case True
    then show ?thesis using Suc.IH len assms(3) by (simp add: nth_append)
  next
    case False
    with Suc.prems have "k = n" by simp
    then show ?thesis using len assms(3) by (simp add: nth_append)
  qed
qed

lemma grayscale_mkImage_length: "length (grayscale (mkImage w h f)) = w * h"
  by (simp add: grayscale_def mkImage_def grayLoop_length)

lemma grayscale_mkImage_nth:
  assumes "k < w * h"
  shows "grayscale (mkImage w h f) ! k = lum (f (k mod w) (k div w))"
proof -
  let ?F = "\<lambda>k. pixelBytes (f (k mod w) (k div w))"
  let ?d = "concat (map ?F [0..<w * h])"
  have q: "\<And>k. length (?F k) = 4"
    by (simp add: pixelBytes_def split: prod.splits)
  have len: "length ?d = 4 * (w * h)"
    using q by (rule concat_quads_length)
  have n: "\<And>j. j < 4 \<Longrightarrow> ?d ! (4 * k + j) = ?F k ! j"
    using q assms by (rule concat_quads_nth)
  have "grayscale (mkImage w h f) ! k = luminance ?d (4 * k)"
    using assms len grayLoop_nth[of k "replicate (w * h) 0" ?d 0]
    by (simp add: grayscale_def mkImage_def)
  also have "\<dots> = lum (f (k mod w) (k div w))"
    using assms len n[of 0] n[of 1] n[of 2]
    by (simp add: luminance_def lum_def pixelBytes_def split: prod.splits)
  finally show ?thesis .
qed

lemma lum_white: "lum white = 255"
  by (simp add: lum_def white_def toUint8_def)

lemma lum_black: "lum black = 0"
  by (simp add: lum_def black_def toUint8_def)

lemma rd_nat: "k < length g \<Longrightarrow> rd g (int k) = Some (real (g ! k))"
  by (simp add: rd_def)

lemma pixel_index:
  fixes a b w h :: nat
  assumes "a < w" "b < h"
  shows "b * w + a < w * h" "(b * w + a) mod w = a" "(b * w + a) div w = b"
proof -
  have "b * w + a < b * w + w" using assms by simp
  also have "\<dots> = Suc b * w" by simp
  also have "\<dots> \<le> h * w" using assms by (intro mult_le_mono1) simp
  finally show "b * w + a < w * h" by (simp add: mult.commute)
  show "(b * w + a) mod w = a" using assms by simp
  show "(b * w + a) div w = b" using assms by simp
qed

lemma gray_pixel:
  assumes "a < w" "b < h"
  shows "grayscale (mkImage w h f) ! (b * w + a) = lum (f a b)"
  using grayscale_mkImage_nth[OF pixel_index(1)[OF assms], of f] pixel_index(2,3)[OF assms]
  by simp

lemma rd_pixel:
  assumes "a < w" "b < h"
  shows "rd (grayscale (mkImage w h f)) (int b * int w + int a) = Some (real (lum (f a b)))"
proof -
  have "int b * int w + int a = int (b * w + a)" by simp
  then show ?thesis
    using rd_nat[of "b * w + a" "grayscale (mkImage w h f)"] pixel_index(1)[OF assms] gray_pixel[OF assms, of f]
    by (simp add: grayscale_mkImage_length)
qed


lemma sobel_mkImage:
  fixes f w h xx yy
  defines "G \<equiv> grayscale (mkImage w h f)"
  defines "P \<equiv> \<lambda>a b. real (lum (f a b))"
  assumes "1 \<le> xx" "xx + 1 < w" "1 \<le> yy" "yy + 1 < h"
  shows "sobelX G (int w) (int yy * int w + int xx) =
           Some (- 1 * P (xx - 1) (yy - 1) + (1 * P (xx + 1) (yy - 1) +
                (- 2 * P (xx - 1) yy + (2 * P (xx + 1) yy +
                (- 1 * P (xx - 1) (yy + 1) + (1 * P (xx + 1) (yy + 1) + 0))))))"
    and "sobelY G (int w) (int yy * int w + int xx) =
           Some (- 1 * P (xx - 1) (yy - 1) + (- 2 * P xx (yy - 1) + (- 1 * P (xx + 1) (yy - 1) +
                (1 * P (xx - 1) (yy + 1) + (2 * P xx (yy + 1) + (1 * P (xx + 1) (yy + 1) + 0))))))"
proof -
  let ?idx = "int yy * int w + int xx"
  have r: "\<And>a b. a < w \<Longrightarrow> b < h \<Longrightarrow> rd G (int b * int w + int a) = Some (P a b)"
    unfolding G_def P_def by (rule rd_pixel)
  have i1: "?idx - int w - 1 = int (yy - 1) * int w + int (xx - 1)"
    using assms(3,5) by (simp add: algebra_simps of_nat_diff)
  have i2: "?idx - int w = int (yy - 1) * int w + int xx"
    using assms(3,5) by (simp add: algebra_simps of_nat_diff)
  have i3: "?idx - int w + 1 = int (yy - 1) * int w + int (xx + 1)"
    using assms(3,5) by (simp add: algebra_simps of_nat_diff)
  have i4: "?idx - 1 = int yy * int w + int (xx - 1)"
    using assms(3,5) by (simp add: algebra_simps of_nat_diff)
  have i5: "?idx + 1 = int yy * int w + int (xx + 1)"
    by simp
  have i6: "?idx + int w - 1 = int (yy + 1) * int w + int (xx - 1)"
    using assms(3,5) by (simp add: algebra_simps of_nat_diff)
  have i7: "?idx + int w = int (yy + 1) * int w + int xx"
    by (simp add: algebra_simps)
  have i8: "?idx + int w + 1 = int (yy + 1) * int w + int (xx + 1)"
    by (simp add: algebra_simps)
  have a1: "rd G (?idx - int w - 1) = Some (P (xx - 1) (yy - 1))"
    unfolding i1 using assms(3-6) by (intro r) simp_all
  have a2: "rd G (?idx - int w) = Some (P xx (yy - 1))"
    unfolding i2 using assms(3-6) by (intro r) simp_all
  have a3: "rd G (?idx - int w + 1) = Some (P (xx + 1) (yy - 1))"
    unfolding i3 using assms(3-6) by (intro r) simp_all
  have a4: "rd G (?idx - 1) = Some (P (xx - 1) yy)"
    unfolding i4 using assms(3-6) by (intro r) simp_all
  have a5: "rd G (?idx + 1) = Some (P (xx + 1) yy)"
    unfolding i5 using assms(3-6) by (intro r) simp_all
  have a6: "rd G (?idx + int w - 1) = Some (P (xx - 1) (yy + 1))"
    unfolding i6 using assms(3-6) by (intro r) simp_all
  have a7: "rd G (?idx + int w) = Some (P xx (yy + 1))"
    unfolding i7 using assms(3-6) by (intro r) simp_all
  have a8: "rd G (?idx + int w + 1) = Some (P (xx + 1) (yy + 1))"
    unfolding i8 using assms(3-6) by (intro r) simp_all
  show "sobelX G (int w) ?idx =
           Some (- 1 * P (xx - 1) (yy - 1) + (1 * P (xx + 1) (yy - 1) +
                (- 2 * P (xx - 1) yy + (2 * P (xx + 1) yy +
                (- 1 * P (xx - 1) (yy + 1) + (1 * P (xx + 1) (yy + 1) + 0))))))"
    unfolding sobelX_def weighted.simps a1 a3 a4 a5 a6 a8 by simp
  show "sobelY G (int w) ?idx =
           Some (- 1 * P (xx - 1) (yy - 1) + (- 2 * P xx (yy - 1) + (- 1 * P (xx + 1) (yy - 1) +
                (1 * P (xx - 1) (yy + 1) + (2 * P xx (yy + 1) + (1 * P (xx + 1) (yy + 1) + 0))))))"
    unfolding sobelY_def weighted.simps a1 a2 a3 a6 a7 a8 by simp
qed

lemma textureFold_flat:
  assumes "\<And>off. off \<in> set offs \<Longrightarrow>
             0 \<le> (yy + fst off) * w + (xx + snd off) \<and> (yy + fst off) * w + (xx + snd off) < int (length g)
             \<and> real (g ! nat ((yy + fst off) * w + (xx + snd off))) = c"
  shows "foldl (textureStep g w xx yy c) acc offs = (fst acc, snd acc + length offs)"
  using assms
proof (induction offs arbitrary: acc)
  case Nil
  then show ?case by simp
next
  case (Cons off offs)
  have "textureStep g w xx yy c acc off = (fst acc, snd acc + 1)"
    using Cons.prems[of off] by (simp add: textureStep_def)
  then show ?case
    using Cons.IH[of "(fst acc, snd acc + 1)"] Cons.prems by simp
qed

lemma sample_mkImage:
  assumes "0 \<le> int xx + dx" "int xx + dx < int w" "0 \<le> int yy + dy" "int yy + dy < int h"
  shows "0 \<le> (int yy + dy) * int w + (int xx + dx)"
    and "(int yy + dy) * int w + (int xx + dx) < int (length (grayscale (mkImage w h f)))"
    and "grayscale (mkImage w h f) ! nat ((int yy + dy) * int w + (int xx + dx))
         = lum (f (nat (int xx + dx)) (nat (int yy + dy)))"
proof -
  let ?a = "nat (int xx + dx)" and ?b = "nat (int yy + dy)"
  have ab: "?a < w" "?b < h" using assms by simp_all
  have e: "(int yy + dy) * int w + (int xx + dx) = int (?b * w + ?a)"
    using assms by simp
  have lt: "int (?b * w + ?a) < int (w * h)"
    using pixel_index(1)[OF ab] by (simp only: of_nat_less_iff)
  show "0 \<le> (int yy + dy) * int w + (int xx + dx)"
    by (subst e) (rule of_nat_0_le_iff)
  show "(int yy + dy) * int w + (int xx + dx) < int (length (grayscale (mkImage w h f)))"
    by (subst e) (simp only: grayscale_mkImage_length lt)
  show "grayscale (mkImage w h f) ! nat ((int yy + dy) * int w + (int xx + dx)) = lum (f ?a ?b)"
    by (subst e) (simp only: nat_int gray_pixel[OF ab])
qed

subsection \<open>The grid\<close>

lemma gridFrom_bounds:
  "v \<in> set (gridFrom s n) \<Longrightarrow> s \<le> v \<and> v + gridSize < n"
proof (induction s n rule: gridFrom.induct)
  case (1 s n)
  show ?case
  proof (cases "int s < int n - int gridSize")
    case True
    with "1.prems" have "v = s \<or> v \<in> set (gridFrom (s + gridSize) n)"
      by (subst (asm) gridFrom.simps) auto
    then show ?thesis
      using "1.IH"[OF True] True by auto
  next
    case False
    with "1.prems" show ?thesis by (subst (asm) gridFrom.simps) simp
  qed
qed

lemma map_filter_all_Some:
  "(\<And>a. a \<in> set xs \<Longrightarrow> f a = Some (g a)) \<Longrightarrow> List.map_filter f xs = map g xs"
  by (induction xs) (simp_all add: List.map_filter_simps)

lemma gridFrom_dvd:
  "v \<in> set (gridFrom s n) \<Longrightarrow> gridSize dvd s \<Longrightarrow> gridSize dvd v"
proof (induction s n rule: gridFrom.induct)
  case (1 s n)
  show ?case
  proof (cases "int s < int n - int gridSize")
    case True
    with "1.prems" have "v = s \<or> v \<in> set (gridFrom (s + gridSize) n)"
      by (subst (asm) gridFrom.simps) auto
    then show ?thesis
      using "1.IH"[OF True] "1.prems"(2) by auto
  next
    case False
    with "1.prems" show ?thesis by (subst (asm) gridFrom.simps) simp
  qed
qed

lemma gridFrom_complete:
  "s \<le> v \<Longrightarrow> gridSize dvd (v - s) \<Longrightarrow> v + gridSize < n \<Longrightarrow> v \<in> set (gridFrom s n)"
proof (induction s n rule: gridFrom.induct)
  case (1 s n)
  have cond: "int s < int n - int gridSize" using "1.prems" by simp
  show ?case
  proof (cases "v = s")
    case True
    then show ?thesis using cond by (subst gridFrom.simps) simp
  next
    case False
    obtain k where k: "v - s = gridSize * k" using "1.prems"(2) by (auto simp: dvd_def)
    with False "1.prems"(1) have "k \<noteq> 0" by (cases k) auto
    then have "gridSize \<le> v - s" using k by (cases k) auto
    then have a: "s + gridSize \<le> v" using "1.prems"(1) by simp
    have "v - (s + gridSize) = gridSize * (k - 1)"
      using k \<open>k \<noteq> 0\<close> by (simp add: algebra_simps)
    then have b: "gridSize dvd (v - (s + gridSize))" by simp
    have "v \<in> set (gridFrom (s + gridSize) n)"
      using "1.IH"[OF cond a b "1.prems"(3)] .
    then show ?thesis using cond by (subst gridFrom.simps) simp
  qed
qed

lemma gridFrom_set:
  "set (gridFrom gridSize n) = {v. gridSize dvd v \<and> gridSize \<le> v \<and> v + gridSize < n}"
proof (intro set_eqI iffI)
  fix v assume "v \<in> set (gridFrom gridSize n)"
  then show "v \<in> {v. gridSize dvd v \<and> gridSize \<le> v \<and> v + gridSize < n}"
    using gridFrom_dvd[of v gridSize n] gridFrom_bounds[of v gridSize n] by simp
next
  fix v assume "v \<in> {v. gridSize dvd v \<and> gridSize \<le> v \<and> v + gridSize < n}"
  then show "v \<in> set (gridFrom gridSize n)"
    by (intro gridFrom_complete) (auto simp: dvd_diff_nat)
qed

lemma map_filter_all_None:
  "(\<And>a. a \<in> set xs \<Longrightarrow> f a = None) \<Longrightarrow> List.map_filter f xs = []"
  by (induction xs) (simp_all add: List.map_filter_simps)

lemma detectSurfaces_none:
  assumes "\<And>xx yy. xx \<in> set (gridFrom gridSize (width img)) \<Longrightarrow> yy \<in> set (gridFrom gridSize (height img))
             \<Longrightarrow> samplePoint (grayscale img) (width img) (height img) xx yy = None"
  shows "detectSurfaces img = []"
proof -
  have "\<And>yy. yy \<in> set (gridFrom gridSize (height img)) \<Longrightarrow>
          List.map_filter (\<lambda>xx. samplePoint (grayscale img) (width img) (height img) xx yy)
             (gridFrom gridSize (width img)) = []"
    by (rule map_filter_all_None) (use assms in blast)
  then show ?thesis
    by (simp add: detectSurfaces_def Let_def)
qed

lemma gridFrom_48: "gridFrom gridSize 48 = [16]"
  by (simp add: gridFrom.simps[of 16] gridFrom.simps[of 32] gridSize_def)

lemma avgConfidence_Nil: "avgConfidence [] = 0"
  by (simp add: avgConfidence_def)


subsection \<open>Flat grid points\<close>

text \<open>
  A grid point of a synthetic frame is flat when its left and right neighbours agree, its
  upper and lower neighbours agree, and the 25 texture samples equal the centre.
\<close>

lemma flat_point:
  fixes f w h xx yy
  defines "P \<equiv> \<lambda>a b. lum (f a b)"
  defines "G \<equiv> grayscale (mkImage w h f)"
  assumes grid: "gridSize \<le> xx" "xx + gridSize < w" "gridSize \<le> yy" "yy + gridSize < h"
    and horiz: "\<And>b. P (xx - 1) b = P (xx + 1) b"
    and vert: "\<And>a. P a (yy - 1) = P a (yy + 1)"
    and flat: "\<And>dx dy. dx \<in> set offsets \<Longrightarrow> dy \<in> set offsets \<Longrightarrow>
                 P (nat (int xx + dx)) (nat (int yy + dy)) = P xx yy"
  shows "magnitude G (int w) (int yy * int w + int xx) = Some 0"
    and "textureVariance G (int w) (int xx) (int yy) (int yy * int w + int xx) = Some 0"
    and "samplePoint G w h xx yy =
         Some \<lparr> sp_x = real xx / real w, sp_y = real yy / real h, sp_confidence = 1, sp_depth = 1 \<rparr>"
proof -
  let ?idx = "int yy * int w + int xx"
  have g1: "1 \<le> xx" "xx + 1 < w" "1 \<le> yy" "yy + 1 < h"
    using grid by (simp_all add: gridSize_def)
  have sx: "sobelX G (int w) ?idx = Some 0"
    unfolding G_def using sobel_mkImage(1)[OF g1, of f] horiz by (simp add: P_def)
  have sy: "sobelY G (int w) ?idx = Some 0"
    unfolding G_def using sobel_mkImage(2)[OF g1, of f] vert by (simp add: P_def)
  show m: "magnitude G (int w) ?idx = Some 0"
    using sx sy by (simp add: magnitude_def)
  have c: "rd G ?idx = Some (real (P xx yy))"
    unfolding G_def using rd_pixel[of xx w yy h f] grid by (simp add: P_def)
  let ?offs = "concat (map (\<lambda>dy. map (\<lambda>dx. (dy, dx)) offsets) offsets)"
  have "foldl (textureStep G (int w) (int xx) (int yy) (real (P xx yy))) (0, 0) ?offs
        = (fst (0::real, 0::nat), snd (0::real, 0::nat) + length ?offs)"
  proof (rule textureFold_flat)
    fix off assume "off \<in> set ?offs"
    then have o: "fst off \<in> set offsets" "snd off \<in> set offsets" by auto
    then have b: "- 8 \<le> fst off" "fst off \<le> 8" "- 8 \<le> snd off" "snd off \<le> 8"
      by (auto simp: offsets_def)
    have r: "0 \<le> int xx + snd off" "int xx + snd off < int w" "0 \<le> int yy + fst off" "int yy + fst off < int h"
      using b grid by (simp_all add: gridSize_def)
    show "0 \<le> (int yy + fst off) * int w + (int xx + snd off)
          \<and> (int yy + fst off) * int w + (int xx + snd off) < int (length G)
          \<and> real (G ! nat ((int yy + fst off) * int w + (int xx + snd off))) = real (P xx yy)"
      unfolding G_def
      using sample_mkImage(1)[OF r] sample_mkImage(2,3)[OF r, where f = f] flat[OF o(2) o(1)]
      by (simp add: P_def)
  qed
  then have ts: "textureSum G (int w) (int xx) (int yy) (real (P xx yy)) = (0, 25)"
    by (simp add: textureSum_def offsets_def)
  show tv: "textureVariance G (int w) (int xx) (int yy) ?idx = Some 0"
    using c ts by (simp add: textureVariance_def)
  show "samplePoint G w h xx yy =
         Some \<lparr> sp_x = real xx / real w, sp_y = real yy / real h, sp_confidence = 1, sp_depth = 1 \<rparr>"
    using m tv by (simp add: samplePoint_def)
qed

lemma mkImage_dims: "width (mkImage w h f) = w" "height (mkImage w h f) = h"
  by (simp_all add: mkImage_def)

lemma detectSurfaces_all:
  assumes "\<And>xx yy. xx \<in> set (gridFrom gridSize (width img)) \<Longrightarrow> yy \<in> set (gridFrom gridSize (height img))
             \<Longrightarrow> samplePoint (grayscale img) (width img) (height img) xx yy = Some (pt xx yy)"
  shows "detectSurfaces img =
         concat (map (\<lambda>yy. map (\<lambda>xx. pt xx yy) (gridFrom gridSize (width img)))
                     (gridFrom gridSize (height img)))"
proof -
  have "\<And>yy. yy \<in> set (gridFrom gridSize (height img)) \<Longrightarrow>
          List.map_filter (\<lambda>xx. samplePoint (grayscale img) (width img) (height img) xx yy)
             (gridFrom gridSize (width img))
          = map (\<lambda>xx. pt xx yy) (gridFrom gridSize (width img))"
    by (rule map_filter_all_Some) (use assms in blast)
  then show ?thesis
    by (simp add: detectSurfaces_def Let_def cong: map_cong)
qed

lemma uniform_point:
  assumes "xx \<in> set (gridFrom gridSize w)" "yy \<in> set (gridFrom gridSize h)"
  shows "magnitude (grayscale (uniformImage w h c)) (int w) (int yy * int w + int xx) = Some 0"
    and "textureVariance (grayscale (uniformImage w h c)) (int w) (int xx) (int yy)
           (int yy * int w + int xx) = Some 0"
    and "samplePoint (grayscale (uniformImage w h c)) w h xx yy =
         Some \<lparr> sp_x = real xx / real w, sp_y = real yy / real h, sp_confidence = 1, sp_depth = 1 \<rparr>"
proof -
  have g: "gridSize \<le> xx" "xx + gridSize < w" "gridSize \<le> yy" "yy + gridSize < h"
    using assms gridFrom_bounds by blast+
  show "magnitude (grayscale (uniformImage w h c)) (int w) (int yy * int w + int xx) = Some 0"
    unfolding uniformImage_def by (rule flat_point(1)[OF g]) simp_all
  show "textureVariance (grayscale (uniformImage w h c)) (int w) (int xx) (int yy)
           (int yy * int w + int xx) = Some 0"
    unfolding uniformImage_def by (rule flat_point(2)[OF g]) simp_all
  show "samplePoint (grayscale (uniformImage w h c)) w h xx yy =
         Some \<lparr> sp_x = real xx / real w, sp_y = real yy / real h, sp_confidence = 1, sp_depth = 1 \<rparr>"
    unfolding uniformImage_def by (rule flat_point(3)[OF g]) simp_all
qed

lemma detectSurfaces_uniform:
  "detectSurfaces (uniformImage w h c) =
     concat (map (\<lambda>yy. map (\<lambda>xx. \<lparr> sp_x = real xx / real w, sp_y = real yy / real h,
                                     sp_confidence = 1, sp_depth = 1 \<rparr>) (gridFrom gridSize w))
                 (gridFrom gridSize h))"
  using detectSurfaces_all[of "uniformImage w h c"
      "\<lambda>xx yy. \<lparr> sp_x = real xx / real w, sp_y = real yy / real h, sp_confidence = 1, sp_depth = 1 \<rparr>"]
    uniform_point(3)[of _ w _ h c]
  by (simp add: uniformImage_def mkImage_dims)

subsection \<open>Uniform frames are accepted everywhere\<close>

text \<open>
  Claim C3. For every frame of one colour, every grid point that the detector samples
  (the multiples of 16 in both axes that keep a border of 16 pixels) has Sobel gradient
  magnitude 0 and texture variance 0 and is emitted as a surface point of confidence
  exactly 1; the detector returns these points, row by row.
\<close>

theorem uniform_frame_accepted:
  "(\<forall>yy \<in> set (gridFrom gridSize h). \<forall>xx \<in> set (gridFrom gridSize w).
      magnitude (grayscale (uniformImage w h c)) (int w) (int yy * int w + int xx) = Some 0
    \<and> textureVariance (grayscale (uniformImage w h c)) (int w) (int xx) (int yy)
           (int yy * int w + int xx) = Some 0
    \<and> samplePoint (grayscale (uniformImage w h c)) w h xx yy =
         Some \<lparr> sp_x = real xx / real w, sp_y = real yy / real h, sp_confidence = 1, sp_depth = 1 \<rparr>)
   \<and> detectSurfaces (uniformImage w h c) =
       concat (map (\<lambda>yy. map (\<lambda>xx. \<lparr> sp_x = real xx / real w, sp_y = real yy / real h,
                                       sp_confidence = 1, sp_depth = 1 \<rparr>) (gridFrom gridSize w))
                   (gridFrom gridSize h))
   \<and> set (gridFrom gridSize w) = {xx. 16 dvd xx \<and> 16 \<le> xx \<and> xx + 16 < w}
   \<and> set (gridFrom gridSize h) = {yy. 16 dvd yy \<and> 16 \<le> yy \<and> yy + 16 < h}"
  using uniform_point[of _ w _ h c] detectSurfaces_uniform[of w h c] gridFrom_set[of w] gridFrom_set[of h]
  by (simp add: gridSize_def)

text \<open>The frame of 48 by 48 pixels of colour (10, 20, 30) has the single grid point (16, 16).\<close>

theorem uniform_frame_accepted_witness:
  "magnitude (grayscale (uniformImage 48 48 (10, 20, 30, 255))) 48 (16 * 48 + 16) = Some 0
   \<and> textureVariance (grayscale (uniformImage 48 48 (10, 20, 30, 255))) 48 16 16 (16 * 48 + 16) = Some 0
   \<and> detectSurfaces (uniformImage 48 48 (10, 20, 30, 255)) =
       [\<lparr> sp_x = 1 / 3, sp_y = 1 / 3, sp_confidence = 1, sp_depth = 1 \<rparr>]"
  using uniform_frame_accepted[of 48 48 "(10, 20, 30, 255)"]
  by (simp add: gridFrom_48)


subsection \<open>The checkerboard of single pixels\<close>

lemma checkerboard_point:
  assumes "gridSize \<le> xx" "xx + gridSize < w" "gridSize \<le> yy" "yy + gridSize < h"
  shows "magnitude (grayscale (checkerboard w h)) (int w) (int yy * int w + int xx) = Some 0"
    and "samplePoint (grayscale (checkerboard w h)) w h xx yy =
         Some \<lparr> sp_x = real xx / real w, sp_y = real yy / real h, sp_confidence = 1, sp_depth = 1 \<rparr>"
proof -
  let ?f = "\<lambda>xx yy. if even (xx + yy) then white else black"
  have x1: "1 \<le> xx" and y1: "1 \<le> yy" using assms by (simp_all add: gridSize_def)
  have horiz: "\<And>b. lum (?f (xx - 1) b) = lum (?f (xx + 1) b)"
    using x1 by simp
  have vert: "\<And>a. lum (?f a (yy - 1)) = lum (?f a (yy + 1))"
    using y1 by simp
  have flat: "lum (?f (nat (int xx + dx)) (nat (int yy + dy))) = lum (?f xx yy)"
    if "dx \<in> set offsets" "dy \<in> set offsets" for dx dy
  proof -
    from that have e: "even dx" "even dy" "- 8 \<le> dx" "- 8 \<le> dy" by (auto simp: offsets_def)
    have "even (nat (int xx + dx) + nat (int yy + dy)) = even (int (nat (int xx + dx) + nat (int yy + dy)))"
      by (simp only: even_of_nat)
    also have "int (nat (int xx + dx) + nat (int yy + dy)) = int xx + int yy + (dx + dy)"
      using e assms by (simp add: gridSize_def)
    also have "even (int xx + int yy + (dx + dy)) = even (int (xx + yy))"
      using e by simp
    finally have "even (nat (int xx + dx) + nat (int yy + dy)) = even (xx + yy)"
      by (simp only: even_of_nat)
    then show ?thesis by simp
  qed
  show "magnitude (grayscale (checkerboard w h)) (int w) (int yy * int w + int xx) = Some 0"
    unfolding checkerboard_def by (rule flat_point(1)[OF assms horiz vert flat])
  show "samplePoint (grayscale (checkerboard w h)) w h xx yy =
         Some \<lparr> sp_x = real xx / real w, sp_y = real yy / real h, sp_confidence = 1, sp_depth = 1 \<rparr>"
    unfolding checkerboard_def by (rule flat_point(3)[OF assms horiz vert flat])
qed

lemma checkerboard_pixel:
  "a < w \<Longrightarrow> b < h \<Longrightarrow> grayscale (checkerboard w h) ! (b * w + a) = (if even (a + b) then 255 else 0)"
  by (simp add: checkerboard_def gray_pixel lum_white lum_black)

lemma detectSurfaces_checkerboard_48:
  "detectSurfaces (checkerboard 48 48) = [\<lparr> sp_x = 1 / 3, sp_y = 1 / 3, sp_confidence = 1, sp_depth = 1 \<rparr>]"
proof -
  have "samplePoint (grayscale (checkerboard 48 48)) 48 48 16 16 =
         Some \<lparr> sp_x = 1 / 3, sp_y = 1 / 3, sp_confidence = 1, sp_depth = 1 \<rparr>"
    using checkerboard_point(2)[of 16 48 16 48] by (simp add: gridSize_def)
  then show ?thesis
    by (simp add: detectSurfaces_def checkerboard_def mkImage_dims gridFrom_48 List.map_filter_simps)
qed

text \<open>
  Claim C2, as stated, fails. In the checkerboard of single pixels every pixel differs
  from its four neighbours by the whole range, 0 against 255, yet the Sobel sums cancel:
  the gradient magnitude at the grid point (16, 16) of the frame of 48 by 48 pixels is 0,
  the 25 texture samples lie at even offsets and equal the centre, and the detector
  accepts the point with confidence 1, so that the aggregate confidence is 1.
\<close>

theorem checkerboard_counterexample:
  "grayscale (checkerboard 48 48) ! (16 * 48 + 15) = 0
   \<and> grayscale (checkerboard 48 48) ! (16 * 48 + 16) = 255
   \<and> grayscale (checkerboard 48 48) ! (16 * 48 + 17) = 0
   \<and> grayscale (checkerboard 48 48) ! (15 * 48 + 16) = 0
   \<and> grayscale (checkerboard 48 48) ! (17 * 48 + 16) = 0
   \<and> gridFrom gridSize 48 = [16]
   \<and> magnitude (grayscale (checkerboard 48 48)) 48 (16 * 48 + 16) = Some 0
   \<and> detectSurfaces (checkerboard 48 48) =
        [\<lparr> sp_x = 1 / 3, sp_y = 1 / 3, sp_confidence = 1, sp_depth = 1 \<rparr>]
   \<and> avgConfidence (detectSurfaces (checkerboard 48 48)) = 1"
proof -
  have m: "magnitude (grayscale (checkerboard 48 48)) 48 (16 * 48 + 16) = Some 0"
    using checkerboard_point(1)[of 16 48 16 48] by (simp add: gridSize_def)
  show ?thesis
    using checkerboard_pixel[of 15 48 16 48] checkerboard_pixel[of 16 48 16 48]
      checkerboard_pixel[of 17 48 16 48] checkerboard_pixel[of 16 48 15 48]
      checkerboard_pixel[of 16 48 17 48] m
    by (simp add: gridFrom_48 detectSurfaces_checkerboard_48 avgConfidence_def)
qed

subsection \<open>The checkerboard of 16-pixel squares\<close>

lemma block_magnitude:
  assumes grid: "gridSize \<le> xx" "xx + gridSize < w" "gridSize \<le> yy" "yy + gridSize < h"
    and dv: "gridSize dvd xx" "gridSize dvd yy"
  shows "magnitude (grayscale (blockCheckerboard w h)) (int w) (int yy * int w + int xx)
         = Some (sqrt 520200)"
proof -
  let ?f = "\<lambda>xx yy. if even (xx div gridSize + yy div gridSize) then white else black"
  obtain i where i: "xx = 16 * Suc i"
    using dv(1) grid(1) by (cases "xx div 16") (auto simp: gridSize_def dvd_def)
  obtain j where j: "yy = 16 * Suc j"
    using dv(2) grid(3) by (cases "yy div 16") (auto simp: gridSize_def dvd_def)
  have g1: "1 \<le> xx" "xx + 1 < w" "1 \<le> yy" "yy + 1 < h"
    using grid by (simp_all add: gridSize_def)
  have d: "(xx - 1) div 16 = i" "xx div 16 = Suc i" "(xx + 1) div 16 = Suc i"
          "(yy - 1) div 16 = j" "yy div 16 = Suc j" "(yy + 1) div 16 = Suc j"
    unfolding i j by simp_all
  have v: "\<And>a b. real (lum (?f a b)) = (if even (a div 16 + b div 16) then 255 else 0)"
    by (simp add: gridSize_def lum_white lum_black)
  have sx: "sobelX (grayscale (mkImage w h ?f)) (int w) (int yy * int w + int xx)
            = Some (if even (i + j) then 510 else - 510)"
    unfolding sobel_mkImage(1)[OF g1, of ?f] v d by simp
  have sy: "sobelY (grayscale (mkImage w h ?f)) (int w) (int yy * int w + int xx)
            = Some (if even (i + j) then 510 else - 510)"
    unfolding sobel_mkImage(2)[OF g1, of ?f] v d by simp
  show ?thesis
    unfolding blockCheckerboard_def magnitude_def sx sy by simp
qed

lemma sqrt_520200: "30 < sqrt 520200"
  by (rule real_less_rsqrt) simp

lemma block_point:
  assumes "xx \<in> set (gridFrom gridSize w)" "yy \<in> set (gridFrom gridSize h)"
  shows "magnitude (grayscale (blockCheckerboard w h)) (int w) (int yy * int w + int xx) = Some (sqrt 520200)"
    and "samplePoint (grayscale (blockCheckerboard w h)) w h xx yy = None"
proof -
  have g: "gridSize \<le> xx" "xx + gridSize < w" "gridSize \<le> yy" "yy + gridSize < h"
      "gridSize dvd xx" "gridSize dvd yy"
    using assms by (simp_all add: gridFrom_set)
  show m: "magnitude (grayscale (blockCheckerboard w h)) (int w) (int yy * int w + int xx) = Some (sqrt 520200)"
    by (rule block_magnitude[OF g])
  show "samplePoint (grayscale (blockCheckerboard w h)) w h xx yy = None"
    using m sqrt_520200 by (simp add: samplePoint_def)
qed

lemma detectSurfaces_block: "detectSurfaces (blockCheckerboard w h) = []"
  using detectSurfaces_none[of "blockCheckerboard w h"] block_point(2)[of _ w _ h]
  by (simp add: blockCheckerboard_def mkImage_dims)

text \<open>
  Claim C2, amended. For every frame that is a black and white checkerboard of squares
  of 16 by 16 pixels, whose corners are the sampled grid points, the Sobel gradient
  magnitude at each grid point exceeds 30, the detector returns no surface point, and
  the aggregate confidence is 0.
\<close>

theorem block_checkerboard_rejected:
  "(\<forall>yy \<in> set (gridFrom gridSize h). \<forall>xx \<in> set (gridFrom gridSize w).
      \<exists>m. magnitude (grayscale (blockCheckerboard w h)) (int w) (int yy * int w + int xx) = Some m
          \<and> 30 < m)
   \<and> detectSurfaces (blockCheckerboard w h) = []
   \<and> avgConfidence (detectSurfaces (blockCheckerboard w h)) = 0"
  using block_point(1)[of _ w _ h] sqrt_520200
  by (simp add: detectSurfaces_block avgConfidence_Nil)

text \<open>The frame of 48 by 48 pixels, with its grid point (16, 16).\<close>

theorem block_checkerboard_rejected_witness:
  "(\<exists>m. magnitude (grayscale (blockCheckerboard 48 48)) 48 (16 * 48 + 16) = Some m \<and> 30 < m)
   \<and> detectSurfaces (blockCheckerboard 48 48) = []
   \<and> avgConfidence (detectSurfaces (blockCheckerboard 48 48)) = 0"
  using block_checkerboard_rejected[of 48 48]
  by (simp add: gridFrom_48 avgConfidence_def)

subsection \<open>Every emitted point passes the confidence test of the tap gate\<close>

lemma samplePoint_confidence:
  "samplePoint g w h xx yy = Some p \<Longrightarrow> 0.5 < sp_confidence p \<and> sp_confidence p \<le> 1"
proof -
  assume a: "samplePoint g w h xx yy = Some p"
  then obtain tv :: real where tv: "tv < 20" and c: "sp_confidence p = max 0 (min 1 ((40 - tv) / 40))"
    by (auto simp: samplePoint_def Let_def split: option.splits if_splits)
  have "1 / 2 < (40 - tv) / 40" using tv by simp
  then show ?thesis unfolding c by (simp add: min_def max_def)
qed

lemma detectSurfaces_sample:
  "p \<in> set (detectSurfaces img) \<Longrightarrow>
   \<exists>xx yy. samplePoint (grayscale img) (width img) (height img) xx yy = Some p"
  unfolding detectSurfaces_def Let_def List.map_filter_def by auto blast

lemma detectSurfaces_confidence:
  "p \<in> set (detectSurfaces img) \<Longrightarrow> 0.5 < sp_confidence p \<and> sp_confidence p \<le> 1"
  using detectSurfaces_sample samplePoint_confidence by blast

lemma visionStep_confidence:
  "\<forall>p \<in> set (surfacePoints s). 0.5 < sp_confidence p \<Longrightarrow>
   \<forall>p \<in> set (surfacePoints (visionStep s i)). 0.5 < sp_confidence p"
  by (cases i) (auto simp: processFrame_def handleScreenTouch_def Let_def dest: detectSurfaces_confidence)

lemma visionRun_confidence:
  "\<forall>p \<in> set (surfacePoints s). 0.5 < sp_confidence p \<Longrightarrow>
   \<forall>p \<in> set (surfacePoints (visionRun s ins)). 0.5 < sp_confidence p"
  unfolding visionRun_def
proof (induction ins arbitrary: s)
  case Nil
  then show ?case by simp
next
  case (Cons i ins)
  show ?case
    using Cons.IH[OF visionStep_confidence[OF Cons.prems, of i]] by simp
qed

lemma nearSurface_drop_confidence:
  assumes "\<forall>p \<in> set pts. 0.5 < sp_confidence p"
  shows "nearSurface pts e =
     (rectWidth e \<noteq> 0 \<and> rectHeight e \<noteq> 0 \<and>
      list_ex (\<lambda>point. sqrt ((sp_x point - tapX e / 100)\<^sup>2 + (sp_y point - tapY e / 100)\<^sup>2) < 0.1) pts)"
  using assms by (auto simp: nearSurface_def list_ex_iff)

text \<open>
  Claim C9. Every surface point that the detector emits has a confidence above 0.5 (and
  at most 1), since it is emitted only for a texture variance below 20. The points held
  by the component are always those of a detection pass, so for them the test
  \<open>confidence > 0.5\<close> of the tap gate is always true and only the distance decides.
\<close>

theorem emitted_confidence_above_half:
  "(\<forall>p \<in> set (detectSurfaces img). 0.5 < sp_confidence p \<and> sp_confidence p \<le> 1)
   \<and> (\<forall>p \<in> set (surfacePoints (visionRun (visionInit it) ins)). 0.5 < sp_confidence p)
   \<and> nearSurface (surfacePoints (visionRun (visionInit it) ins)) e =
       (rectWidth e \<noteq> 0 \<and> rectHeight e \<noteq> 0 \<and>
        list_ex (\<lambda>point. sqrt ((sp_x point - tapX e / 100)\<^sup>2 + (sp_y point - tapY e / 100)\<^sup>2) < 0.1)
          (surfacePoints (visionRun (visionInit it) ins)))"
proof -
  have inv: "\<forall>p \<in> set (surfacePoints (visionRun (visionInit it) ins)). 0.5 < sp_confidence p"
    by (rule visionRun_confidence) (simp add: visionInit_def)
  show ?thesis
    using detectSurfaces_confidence[of _ img] inv nearSurface_drop_confidence[OF inv, of e]
    by blast
qed

lemma detectSurfaces_uniform_48:
  "detectSurfaces (uniformImage 48 48 c) = [\<lparr> sp_x = 1 / 3, sp_y = 1 / 3, sp_confidence = 1, sp_depth = 1 \<rparr>]"
  by (simp add: detectSurfaces_uniform gridFrom_48)

text \<open>A white frame of 48 by 48 pixels, and a tap on its one surface point.\<close>

theorem emitted_confidence_above_half_witness:
  "1 / 2 < sp_confidence (hd (detectSurfaces (uniformImage 48 48 white)))
   \<and> nearSurface (surfacePoints (visionRun (visionInit ()) [FrameIn (uniformImage 48 48 white)]))
        \<lparr> clientX = 10, clientY = 10, rectLeft = 0, rectTop = 0, rectWidth = 30, rectHeight = 30 \<rparr>"
  using emitted_confidence_above_half[of "uniformImage 48 48 white" "()" "[FrameIn (uniformImage 48 48 white)]"
      "\<lparr> clientX = 10, clientY = 10, rectLeft = 0, rectTop = 0, rectWidth = 30, rectHeight = 30 \<rparr>"]
  by (simp add: detectSurfaces_uniform_48 visionRun_def visionInit_def processFrame_def tapX_def tapY_def Let_def)

section \<open>The tap gates\<close>

text \<open>
  Claim C1. In every variant a tap that arrives while the gate does not pass leaves the
  state, and with it the list of placed items, as it is: in the vision variant when the
  aggregate confidence is below 0.4 or no surface point of confidence above 0.5 lies
  within the normalised distance 0.1 of the tap, in the native variant when the reticle
  is missing or not visible, in the motion variant when no surface is detected or the
  component is calibrating. The handlers have no failing path: each returns a state.
\<close>

theorem rejected_tap_places_nothing:
  "((surfaceConfidence s < 0.4
      \<or> \<not> (\<exists>point \<in> set (surfacePoints s).
             sqrt ((sp_x point - tapX e / 100)\<^sup>2 + (sp_y point - tapY e / 100)\<^sup>2) < 0.1
             \<and> sp_confidence point > 0.5))
     \<longrightarrow> handleScreenTouch e now rnd s = s)
   \<and> ((case reticle n of None \<Rightarrow> True | Some (position, visible) \<Rightarrow> \<not> visible)
     \<longrightarrow> placeItem now n = n)
   \<and> ((\<not> surfaceDetected m \<or> isCalibrating m)
     \<longrightarrow> handleScreenTouchMotion e now rnd m = m)"
  by (auto simp: handleScreenTouch_def nearSurface_def list_ex_iff placeItem_def
                 handleScreenTouchMotion_def split: option.splits)

text \<open>
  A tap on the initial vision state, a tap in a session whose reticle has not been hit
  yet, and a tap on the initial motion state.
\<close>

theorem rejected_tap_places_nothing_witness:
  "handleScreenTouch \<lparr> clientX = 10, clientY = 10, rectLeft = 0, rectTop = 0, rectWidth = 30, rectHeight = 30 \<rparr>
      1000 0 (visionInit ()) = visionInit ()
   \<and> placeItem 1000 (nativeStep (nativeStep (nativeInit ()) ModelLoaded) StartSession)
       = nativeStep (nativeStep (nativeInit ()) ModelLoaded) StartSession
   \<and> handleScreenTouchMotion \<lparr> clientX = 10, clientY = 10, rectLeft = 0, rectTop = 0, rectWidth = 30, rectHeight = 30 \<rparr>
      1000 0 (motionInit ()) = motionInit ()"
  using rejected_tap_places_nothing[of "visionInit ()"
      "\<lparr> clientX = 10, clientY = 10, rectLeft = 0, rectTop = 0, rectWidth = 30, rectHeight = 30 \<rparr>"
      1000 0 "nativeStep (nativeStep (nativeInit ()) ModelLoaded) StartSession" "motionInit ()"]
  by (simp add: visionInit_def nativeInit_def motionInit_def)


section \<open>Properties of the motion detector\<close>

lemma foldl_add_sum:
  "foldl (\<lambda>s v. s + f v) (a::real) xs = a + sum_list (map f xs)"
  by (induction xs arbitrary: a) simp_all

lemma historyAvg_sum: "historyAvg hist = sum_list hist / real (length hist)"
  using foldl_add_sum[of "\<lambda>v. v" 0 hist] by (simp add: historyAvg_def)

lemma historyVariance_population: "historyVariance hist = populationVariance hist"
  using foldl_add_sum[of "\<lambda>v. (v - historyAvg hist)\<^sup>2" 0 hist]
  by (simp add: historyVariance_def populationVariance_def historyAvg_sum Let_def)

lemma constant_history_variance:
  assumes "hist \<noteq> []" "\<forall>v \<in> set hist. v = m"
  shows "populationVariance hist = 0"
proof -
  have h: "hist = replicate (length hist) m"
    using assms(2) by (simp add: replicate_length_same)
  have len: "real (length hist) \<noteq> 0" using assms(1) by simp
  have "sum_list hist = real (length hist) * m"
    by (subst h) (simp add: sum_list_replicate)
  then have avg: "sum_list hist / real (length hist) = m"
    using len by simp
  have "(\<Sum>v\<leftarrow>hist. (v - m)\<^sup>2) = 0"
    by (subst h) (simp add: sum_list_replicate)
  then show ?thesis
    by (simp add: populationVariance_def avg)
qed

lemma pushHistory_length:
  "length hist \<le> 10 \<Longrightarrow> pushHistory hist m \<noteq> [] \<and> length (pushHistory hist m) \<le> 10"
  by (cases hist) (auto simp: pushHistory_def Let_def)

subsection \<open>The stability score\<close>

text \<open>
  Claim C5. For every acceleration history of at least one and at most 10 magnitudes, the
  stability score is 100 minus ten times the population variance of the history, clamped
  to the range from 0 to 100, and it is exactly 100 when all magnitudes are equal. The
  history that the listener keeps has at most 10 entries, and the stability that the
  listener stores is this score of the history after the push.
\<close>

theorem stability_score_spec:
  "(hist \<noteq> [] \<and> length hist \<le> 10 \<longrightarrow>
      stabilityScore hist = max 0 (min 100 (100 - 10 * populationVariance hist)))
   \<and> (hist \<noteq> [] \<and> length hist \<le> 10 \<and> (\<forall>v \<in> set hist. v = m) \<longrightarrow> stabilityScore hist = 100)
   \<and> (mounted l \<and> length (motionHistory l) \<le> 10
        \<and> accelerationIncludingGravity ev = Some \<lparr> acc_x = Some ax, acc_y = Some ay, acc_z = Some az \<rparr> \<longrightarrow>
      (let hist' = pushHistory (motionHistory l) (sqrt (ax * ax + ay * ay + az * az));
           ls' = motionListener r ev t (l, s)
       in motionHistory (fst ls') = hist' \<and> hist' \<noteq> [] \<and> length hist' \<le> 10
          \<and> deviceStability (snd ls') = max 0 (min 100 (100 - 10 * populationVariance hist'))))"
proof -
  have a: "stabilityScore h = max 0 (min 100 (100 - 10 * populationVariance h))" for h
    by (simp add: stabilityScore_def historyVariance_population mult.commute)
  have b: "stabilityScore hist = 100" if "hist \<noteq> []" "\<forall>v \<in> set hist. v = m"
    using constant_history_variance[OF that] by (simp add: a)
  have c: "motionHistory (fst (motionListener r ev t (l, s))) = pushHistory (motionHistory l) (sqrt (ax * ax + ay * ay + az * az))
           \<and> deviceStability (snd (motionListener r ev t (l, s)))
               = stabilityScore (pushHistory (motionHistory l) (sqrt (ax * ax + ay * ay + az * az)))"
    if "mounted l" "accelerationIncludingGravity ev = Some \<lparr> acc_x = Some ax, acc_y = Some ay, acc_z = Some az \<rparr>"
    using that by (simp add: motionListener_def Let_def)
  show ?thesis
    using a b c pushHistory_length[of "motionHistory l" "sqrt (ax * ax + ay * ay + az * az)"]
    by (simp add: Let_def)
qed

text \<open>Three equal magnitudes, and a second sample of magnitude 3 after a first one.\<close>

theorem stability_score_spec_witness:
  "stabilityScore [9.8, 9.8, 9.8] = 100
   \<and> stabilityScore [9.8, 9.8, 9.8] = max 0 (min 100 (100 - 10 * populationVariance [9.8, 9.8, 9.8]))
   \<and> deviceStability (snd (motionListener (motionInit ())
        \<lparr> accelerationIncludingGravity = Some \<lparr> acc_x = Some 0, acc_y = Some 0, acc_z = Some 3 \<rparr> \<rparr> 50
        (\<lparr> mounted = True, motionHistory = [3], lastMotionTime = 0 \<rparr>, motionInit ()))) = 100"
proof -
  have n: "populationVariance [3, 3] = 0"
    by (simp add: populationVariance_def)
  show ?thesis
    using stability_score_spec[of "[9.8, 9.8, 9.8]" "9.8" "\<lparr> mounted = True, motionHistory = [3], lastMotionTime = 0 \<rparr>"
      "\<lparr> accelerationIncludingGravity = Some \<lparr> acc_x = Some 0, acc_y = Some 0, acc_z = Some 3 \<rparr> \<rparr>"
      0 0 3 "motionInit ()" 50 "motionInit ()"]
    by (simp add: pushHistory_def n Let_def)
qed

subsection \<open>The range of the surface quality\<close>

text \<open>
  The three updates of the surface quality keep it in its range, also when the motion
  listener adds to a value that its closure took from an earlier render.
\<close>

lemma motionListener_range:
  "qualityInRange r \<Longrightarrow> qualityInRange s \<Longrightarrow> qualityInRange (snd (motionListener r ev t (l, s)))"
  by (auto simp: motionListener_def qualityInRange_def Let_def split: option.splits)

lemma orientationListener_range:
  "qualityInRange s \<Longrightarrow> qualityInRange (snd (orientationListener r ev (l, s)))"
  by (auto simp: orientationListener_def qualityInRange_def Let_def split: option.splits)

lemma stabilityTick_range:
  "qualityInRange s \<Longrightarrow> qualityInRange (stabilityTick r s)"
  by (auto simp: stabilityTick_def qualityInRange_def)

lemma motionStep_range:
  "qualityInRange (closure c) \<Longrightarrow> qualityInRange (current c) \<Longrightarrow>
   qualityInRange (closure (motionStep c i)) \<and> qualityInRange (current (motionStep c i))"
  by (cases i) (simp_all add: Let_def motionListener_range orientationListener_range stabilityTick_range)

lemma motionRun_range:
  "qualityInRange (closure c) \<Longrightarrow> qualityInRange (current c) \<Longrightarrow>
   qualityInRange (closure (motionRun c ins)) \<and> qualityInRange (current (motionRun c ins))"
  unfolding motionRun_def
proof (induction ins arbitrary: c)
  case Nil
  then show ?case by simp
next
  case (Cons i ins)
  show ?case
    using Cons.IH[of "motionStep c i"] motionStep_range[OF Cons.prems, of i] by simp
qed

text \<open>
  Claim C4. After every sequence of motion samples, orientation samples, timer ticks and
  effect runs, of any length, the surface quality lies between 0 and 100. This holds for
  every prefix of the sequence, hence after every update, and whatever closure the
  listeners hold.
\<close>

theorem surface_quality_clamped:
  "0 \<le> surfaceQuality (current (motionRun (motionStart it t0) ins))
   \<and> surfaceQuality (current (motionRun (motionStart it t0) ins)) \<le> 100"
  using motionRun_range[of "motionStart it t0" ins]
  by (simp add: qualityInRange_def motionStart_def motionInit_def)

subsection \<open>The gating tick\<close>

text \<open>
  What a mounted listener does with a complete sample: the gating update runs only when
  more than 100ms have passed since the last one, and it sets the surface quality to the
  value of its closure plus 5, capped at 100, when the sample qualifies, and to that
  value minus 2, floored at 0, otherwise.
\<close>

lemma motionListener_tick:
  "mounted l \<and> accelerationIncludingGravity ev = Some \<lparr> acc_x = Some ax, acc_y = Some ay, acc_z = Some az \<rparr> \<longrightarrow>
     (let stability = stabilityScore (pushHistory (motionHistory l) (sqrt (ax * ax + ay * ay + az * az)));
          ls' = motionListener r ev t (l, s)
      in deviceStability (snd ls') = stability
       \<and> (t - lastMotionTime l > 100 \<longrightarrow>
            lastMotionTime (fst ls') = t
          \<and> surfaceQuality (snd ls') =
              (if stability > 70 \<and> \<bar>az\<bar> > 8 \<and> \<bar>ax\<bar> < 3 \<and> \<bar>ay\<bar> < 3
               then min 100 (surfaceQuality r + 5) else max 0 (surfaceQuality r - 2)))
       \<and> (\<not> t - lastMotionTime l > 100 \<longrightarrow>
            lastMotionTime (fst ls') = lastMotionTime l
          \<and> surfaceQuality (snd ls') = surfaceQuality s))"
  by (simp add: motionListener_def Let_def qualifying_def)

lemma stabilityScore_single: "stabilityScore [v] = 100"
  by (simp add: stabilityScore_def historyVariance_def historyAvg_def)

text \<open>
  Claim C6 says that a gating tick increases the surface quality by 5 or decreases it by
  2. The code does so only while the closure of the motion listener holds the present
  surface quality. In the run below a first sample makes the device stable, the effect
  runs, an orientation sample adds its bonus of 2 to the present value with
  \<^verbatim>\<open>prev => ...\<close>, and a qualifying sample arrives 140ms after the effect ran, before
  the effect runs again: the tick adds 5 to the value 0 of its closure and moves the
  surface quality from 2 to 5, not to 7. With an effect run between the orientation
  sample and the tick the result is 7.
\<close>

theorem stale_gating_tick:
  "surfaceQuality (current (motionRun (motionStart () 0)
      [Motion \<lparr> accelerationIncludingGravity = Some \<lparr> acc_x = Some 0, acc_y = Some 0, acc_z = Some 9 \<rparr> \<rparr> 50,
       Install 60,
       Orientation \<lparr> alpha = Some 0, beta = Some 90, gamma = Some 0 \<rparr>])) = 2
   \<and> surfaceQuality (current (motionRun (motionStart () 0)
      [Motion \<lparr> accelerationIncludingGravity = Some \<lparr> acc_x = Some 0, acc_y = Some 0, acc_z = Some 9 \<rparr> \<rparr> 50,
       Install 60,
       Orientation \<lparr> alpha = Some 0, beta = Some 90, gamma = Some 0 \<rparr>,
       Motion \<lparr> accelerationIncludingGravity = Some \<lparr> acc_x = Some 0, acc_y = Some 0, acc_z = Some 9 \<rparr> \<rparr> 200])) = 5
   \<and> lastMotionTime (locals (motionRun (motionStart () 0)
      [Motion \<lparr> accelerationIncludingGravity = Some \<lparr> acc_x = Some 0, acc_y = Some 0, acc_z = Some 9 \<rparr> \<rparr> 50,
       Install 60,
       Orientation \<lparr> alpha = Some 0, beta = Some 90, gamma = Some 0 \<rparr>,
       Motion \<lparr> accelerationIncludingGravity = Some \<lparr> acc_x = Some 0, acc_y = Some 0, acc_z = Some 9 \<rparr> \<rparr> 200])) = 200
   \<and> deviceStability (current (motionRun (motionStart () 0)
      [Motion \<lparr> accelerationIncludingGravity = Some \<lparr> acc_x = Some 0, acc_y = Some 0, acc_z = Some 9 \<rparr> \<rparr> 50,
       Install 60,
       Orientation \<lparr> alpha = Some 0, beta = Some 90, gamma = Some 0 \<rparr>,
       Motion \<lparr> accelerationIncludingGravity = Some \<lparr> acc_x = Some 0, acc_y = Some 0, acc_z = Some 9 \<rparr> \<rparr> 200])) = 100
   \<and> surfaceQuality (current (motionRun (motionStart () 0)
      [Motion \<lparr> accelerationIncludingGravity = Some \<lparr> acc_x = Some 0, acc_y = Some 0, acc_z = Some 9 \<rparr> \<rparr> 50,
       Install 60,
       Orientation \<lparr> alpha = Some 0, beta = Some 90, gamma = Some 0 \<rparr>,
       Install 70,
       Motion \<lparr> accelerationIncludingGravity = Some \<lparr> acc_x = Some 0, acc_y = Some 0, acc_z = Some 9 \<rparr> \<rparr> 200])) = 7"
  by (simp add: motionRun_def motionStart_def motionInit_def motionListener_def orientationListener_def
        pushHistory_def stabilityScore_single qualifying_def Let_def)

section \<open>Properties of the native plane bookkeeping\<close>

subsection \<open>One reported plane\<close>

lemma find_plane_None:
  "find (\<lambda>dp. dp_plane dp = p) known = None \<longleftrightarrow> p \<notin> dp_plane ` set known"
  by (auto simp: find_None_iff)

lemma replaceFirst_planes:
  "dp_plane d = p \<Longrightarrow> map dp_plane (replaceFirst p d known) = map dp_plane known"
  by (induction known) simp_all

lemma observePlane_planes:
  "map dp_plane (fst (observePlane t (known, np) r)) = map dp_plane known"
proof (cases "rp_pose r")
  case None
  then show ?thesis by (simp add: observePlane_def)
next
  case (Some pose)
  obtain position up where pose: "pose = (position, up)" by (cases pose)
  show ?thesis
  proof (cases "find (\<lambda>dp. dp_plane dp = rp_plane r) known")
    case None
    then show ?thesis using Some pose by (simp add: observePlane_def)
  next
    case (Some dp)
    then have "dp_plane dp = rp_plane r"
      by (auto dest: find_Some_iff[THEN iffD1])
    then show ?thesis
      using Some \<open>rp_pose r = Some pose\<close> pose
      by (simp add: observePlane_def Let_def replaceFirst_planes)
  qed
qed

lemma observePlane_grows:
  "set np \<subseteq> set (snd (observePlane t (known, np) r))"
  by (auto simp: observePlane_def Let_def split: option.splits)

lemma foldl_observePlane_planes:
  "map dp_plane (fst (foldl (observePlane t) (known, np) rs)) = map dp_plane known"
proof (induction rs arbitrary: known np)
  case Nil
  then show ?case by simp
next
  case (Cons r rs)
  obtain k' np' where o: "observePlane t (known, np) r = (k', np')"
    by (cases "observePlane t (known, np) r")
  have "map dp_plane k' = map dp_plane known"
    using observePlane_planes[of t known np r] o by simp
  then show ?case
    using Cons.IH[of k' np'] o by simp
qed

lemma foldl_observePlane_grows:
  "set np \<subseteq> set (snd (foldl (observePlane t) (known, np) rs))"
proof (induction rs arbitrary: known np)
  case Nil
  then show ?case by simp
next
  case (Cons r rs)
  obtain k' np' where o: "observePlane t (known, np) r = (k', np')"
    by (cases "observePlane t (known, np) r")
  have "set np \<subseteq> set np'"
    using observePlane_grows[of np t known r] o by simp
  then show ?case
    using Cons.IH[where known = k' and np = np'] o by auto
qed

lemma foldl_observePlane_new:
  assumes "r \<in> set rs" "rp_pose r = Some (position, up)" "rp_plane r \<notin> dp_plane ` set known"
  shows "\<lparr> dp_plane = rp_plane r, dp_id = rp_freshId r, dp_center = position, dp_normal = up,
           dp_bounds = planeBounds (rp_polygon r), dp_confidence = 1, dp_lastUpdated = t \<rparr>
         \<in> set (snd (foldl (observePlane t) (known, np) rs))"
  using assms(1,3)
proof (induction rs arbitrary: known np)
  case Nil
  then show ?case by simp
next
  case (Cons a rs)
  obtain k' np' where o: "observePlane t (known, np) a = (k', np')"
    by (cases "observePlane t (known, np) a")
  have pl: "dp_plane ` set k' = dp_plane ` set known"
    using observePlane_planes[of t known np a] o by (metis fst_conv set_map)
  show ?case
  proof (cases "a = r")
    case True
    have "find (\<lambda>dp. dp_plane dp = rp_plane r) known = None"
      using Cons.prems(2) by (simp add: find_plane_None)
    then have "\<lparr> dp_plane = rp_plane r, dp_id = rp_freshId r, dp_center = position, dp_normal = up,
           dp_bounds = planeBounds (rp_polygon r), dp_confidence = 1, dp_lastUpdated = t \<rparr> \<in> set np'"
      using o True assms(2) by (auto simp: observePlane_def)
    then show ?thesis
      using foldl_observePlane_grows[of np' t k' rs] o by auto
  next
    case False
    then have "r \<in> set rs" using Cons.prems(1) by simp
    then show ?thesis
      using Cons.IH[of k' np'] pl Cons.prems(2) o by simp
  qed
qed

subsection \<open>Confidence never decreases\<close>

lemma tracks_refl: "dp_confidence a \<le> 1 \<Longrightarrow> tracks a a"
  by (simp add: tracks_def)

lemma tracks_trans: "tracks a b \<Longrightarrow> tracks b c \<Longrightarrow> tracks a c"
  by (auto simp: tracks_def)

lemma list_all2_tracks_refl:
  "\<forall>p \<in> set xs. dp_confidence p \<le> 1 \<Longrightarrow> list_all2 tracks xs xs"
  by (induction xs) (simp_all add: tracks_refl)

lemma list_all2_tracks_trans:
  "list_all2 tracks xs ys \<Longrightarrow> list_all2 tracks ys zs \<Longrightarrow> list_all2 tracks xs zs"
  using list_all2_trans[of tracks tracks tracks xs ys zs] tracks_trans by blast

lemma list_all2_tracks_bound:
  "list_all2 tracks xs ys \<Longrightarrow> \<forall>p \<in> set ys. dp_confidence p \<le> 1"
  by (induction rule: list_all2_induct) (simp_all add: tracks_def)

lemma replaceFirst_tracks:
  assumes "\<forall>p \<in> set known. dp_confidence p \<le> 1"
    and "find (\<lambda>dp. dp_plane dp = pl) known = Some dp"
    and "tracks dp d"
  shows "list_all2 tracks known (replaceFirst pl d known)"
  using assms
proof (induction known)
  case Nil
  then show ?case by simp
next
  case (Cons x xs)
  show ?case
  proof (cases "dp_plane x = pl")
    case True
    then have "dp = x" using Cons.prems(2) by simp
    then show ?thesis
      using True Cons.prems(1,3) by (simp add: list_all2_tracks_refl)
  next
    case False
    then show ?thesis
      using Cons by (simp add: tracks_refl)
  qed
qed

lemma observePlane_tracks:
  assumes "\<forall>p \<in> set known. dp_confidence p \<le> 1"
  shows "list_all2 tracks known (fst (observePlane t (known, np) r))"
proof (cases "rp_pose r")
  case None
  then show ?thesis using assms by (simp add: observePlane_def list_all2_tracks_refl)
next
  case (Some pose)
  obtain position up where pose: "pose = (position, up)" by (cases pose)
  show ?thesis
  proof (cases "find (\<lambda>dp. dp_plane dp = rp_plane r) known")
    case None
    then show ?thesis
      using Some pose assms by (simp add: observePlane_def list_all2_tracks_refl)
  next
    case (Some dp)
    let ?u = "dp\<lparr> dp_center := position, dp_normal := up, dp_bounds := planeBounds (rp_polygon r),
                  dp_confidence := min (dp_confidence dp + 0.1) 1, dp_lastUpdated := t \<rparr>"
    have "dp \<in> set known" using Some by (auto simp: find_Some_iff in_set_conv_nth)
    then have "dp_confidence dp \<le> 1" using assms by simp
    then have "tracks dp ?u" by (simp add: tracks_def)
    then show ?thesis
      using replaceFirst_tracks[OF assms Some] \<open>rp_pose r = Some pose\<close> pose Some
      by (simp add: observePlane_def Let_def)
  qed
qed

lemma foldl_observePlane_tracks:
  assumes "\<forall>p \<in> set known. dp_confidence p \<le> 1"
  shows "list_all2 tracks known (fst (foldl (observePlane t) (known, np) rs))"
  using assms
proof (induction rs arbitrary: known np)
  case Nil
  then show ?case by (simp add: list_all2_tracks_refl)
next
  case (Cons r rs)
  obtain k' np' where o: "observePlane t (known, np) r = (k', np')"
    by (cases "observePlane t (known, np) r")
  have a: "list_all2 tracks known k'"
    using observePlane_tracks[OF Cons.prems, of t np r] o by simp
  have b: "list_all2 tracks k' (fst (foldl (observePlane t) (k', np') rs))"
    by (rule Cons.IH) (use a list_all2_tracks_bound in blast)
  show ?case
    using list_all2_tracks_trans[OF a b] o by simp
qed

lemma trackFrames_tracks:
  assumes "\<forall>p \<in> set known. dp_confidence p \<le> 1"
  shows "list_all2 tracks known (trackFrames known frames)"
  using assms unfolding trackFrames_def
proof (induction frames arbitrary: known)
  case Nil
  then show ?case by (simp add: list_all2_tracks_refl)
next
  case (Cons fr frames)
  let ?k = "fst (trackPlanes known (fst fr) (fst (snd fr)) (snd (snd fr)))"
  have a: "list_all2 tracks known ?k"
    using foldl_observePlane_tracks[OF Cons.prems] by (simp add: trackPlanes_def Let_def)
  have b: "list_all2 tracks ?k
             (foldl (\<lambda>k fr. fst (trackPlanes k (fst fr) (fst (snd fr)) (snd (snd fr)))) ?k frames)"
    by (rule Cons.IH) (use a list_all2_tracks_bound in blast)
  show ?case
    using list_all2_tracks_trans[OF a b] by simp
qed

subsection \<open>Creation, re-observation and monotonicity\<close>

text \<open>
  Claim C7. A reported plane with a pose that the callback does not know yet yields a
  record of confidence exactly 1, which enters the active set (when the filter runs less
  than 5000ms after the update). A reported plane that the callback knows has its centre,
  normal and bounds replaced by those of the report and its confidence set to the old
  confidence plus 0.1, capped at 1, which is not below the old confidence when that is at
  most 1. Hence, when no known confidence exceeds 1, over any sequence of frames every
  record keeps its plane and its confidence never decreases and never exceeds 1.
\<close>

theorem plane_tracking_confidence:
  "(rp_pose r = Some (position, up) \<and> rp_plane r \<notin> dp_plane ` set known \<longrightarrow>
      observePlane t (known, np) r =
        (known, np @ [\<lparr> dp_plane = rp_plane r, dp_id = rp_freshId r, dp_center = position,
                         dp_normal = up, dp_bounds = planeBounds (rp_polygon r),
                         dp_confidence = 1, dp_lastUpdated = t \<rparr>])
      \<and> (r \<in> set rs \<and> t' - t < 5000 \<longrightarrow>
           \<lparr> dp_plane = rp_plane r, dp_id = rp_freshId r, dp_center = position,
             dp_normal = up, dp_bounds = planeBounds (rp_polygon r),
             dp_confidence = 1, dp_lastUpdated = t \<rparr> \<in> set (snd (trackPlanes known rs t t'))))
   \<and> (rp_pose r = Some (position, up) \<and> find (\<lambda>d. dp_plane d = rp_plane r) known = Some dp \<longrightarrow>
      observePlane t (known, np) r =
        (replaceFirst (rp_plane r)
           (dp\<lparr> dp_center := position, dp_normal := up, dp_bounds := planeBounds (rp_polygon r),
                dp_confidence := min (dp_confidence dp + 0.1) 1, dp_lastUpdated := t \<rparr>) known,
         np @ [dp\<lparr> dp_center := position, dp_normal := up, dp_bounds := planeBounds (rp_polygon r),
                    dp_confidence := min (dp_confidence dp + 0.1) 1, dp_lastUpdated := t \<rparr>])
      \<and> (dp_confidence dp \<le> 1 \<longrightarrow> tracks dp (last (snd (observePlane t (known, np) r)))))
   \<and> ((\<forall>p \<in> set known. dp_confidence p \<le> 1) \<longrightarrow>
        list_all2 tracks (trackFrames known frames) (trackFrames known (frames @ later)))"
proof -
  let ?new = "\<lparr> dp_plane = rp_plane r, dp_id = rp_freshId r, dp_center = position,
                 dp_normal = up, dp_bounds = planeBounds (rp_polygon r),
                 dp_confidence = 1, dp_lastUpdated = t \<rparr>"
  have a: "observePlane t (known, np) r = (known, np @ [?new])"
    if "rp_pose r = Some (position, up)" "rp_plane r \<notin> dp_plane ` set known"
    using that find_plane_None[of "rp_plane r" known] by (simp add: observePlane_def)
  have b: "?new \<in> set (snd (trackPlanes known rs t t'))"
    if "rp_pose r = Some (position, up)" "rp_plane r \<notin> dp_plane ` set known" "r \<in> set rs" "t' - t < 5000"
    using foldl_observePlane_new[OF that(3,1,2), of t "[]"] that(4)
    by (simp add: trackPlanes_def Let_def validPlanes_def)
  have c: "observePlane t (known, np) r =
        (replaceFirst (rp_plane r)
           (dp\<lparr> dp_center := position, dp_normal := up, dp_bounds := planeBounds (rp_polygon r),
                dp_confidence := min (dp_confidence dp + 0.1) 1, dp_lastUpdated := t \<rparr>) known,
         np @ [dp\<lparr> dp_center := position, dp_normal := up, dp_bounds := planeBounds (rp_polygon r),
                    dp_confidence := min (dp_confidence dp + 0.1) 1, dp_lastUpdated := t \<rparr>])"
    if "rp_pose r = Some (position, up)" "find (\<lambda>d. dp_plane d = rp_plane r) known = Some dp"
    using that by (simp add: observePlane_def Let_def)
  have d: "list_all2 tracks (trackFrames known frames) (trackFrames known (frames @ later))"
    if k: "\<forall>p \<in> set known. dp_confidence p \<le> 1"
  proof -
    have "\<forall>p \<in> set (trackFrames known frames). dp_confidence p \<le> 1"
      using trackFrames_tracks[OF k, of frames] list_all2_tracks_bound by blast
    then have "list_all2 tracks (trackFrames known frames) (trackFrames (trackFrames known frames) later)"
      by (rule trackFrames_tracks)
    then show ?thesis by (simp add: trackFrames_def)
  qed
  have e: "tracks dp (last (snd (observePlane t (known, np) r)))"
    if "rp_pose r = Some (position, up)" "find (\<lambda>d. dp_plane d = rp_plane r) known = Some dp"
       "dp_confidence dp \<le> 1"
    unfolding c[OF that(1,2)] snd_conv last_snoc using that(3) by (simp add: tracks_def)
  show ?thesis using a b c d e by blast
qed

text \<open>
  A first report of plane 7, and a report of the plane when it is known with confidence
  0.85, as one frame and as a sequence of frames.
\<close>

theorem plane_tracking_confidence_witness:
  "trackPlanes [] [\<lparr> rp_plane = 7, rp_pose = Some ((1, 0, 2), (0, 1, 0)), rp_polygon = None, rp_freshId = ''a'' \<rparr>] 1000 1000
     = ([], [\<lparr> dp_plane = 7, dp_id = ''a'', dp_center = (1, 0, 2), dp_normal = (0, 1, 0),
               dp_bounds = (1, 1), dp_confidence = 1, dp_lastUpdated = 1000 \<rparr>])
   \<and> trackPlanes [\<lparr> dp_plane = 7, dp_id = ''a'', dp_center = (1, 0, 2), dp_normal = (0, 1, 0),
                     dp_bounds = (1, 1), dp_confidence = 0.85, dp_lastUpdated = 1000 \<rparr>]
        [\<lparr> rp_plane = 7, rp_pose = Some ((1, 0, 3), (0, 1, 0)), rp_polygon = None, rp_freshId = ''b'' \<rparr>] 1016 1016
     = ([\<lparr> dp_plane = 7, dp_id = ''a'', dp_center = (1, 0, 3), dp_normal = (0, 1, 0),
               dp_bounds = (1, 1), dp_confidence = 0.95, dp_lastUpdated = 1016 \<rparr>],
        [\<lparr> dp_plane = 7, dp_id = ''a'', dp_center = (1, 0, 3), dp_normal = (0, 1, 0),
               dp_bounds = (1, 1), dp_confidence = 0.95, dp_lastUpdated = 1016 \<rparr>])
   \<and> list_all2 tracks
        [\<lparr> dp_plane = 7, dp_id = ''a'', dp_center = (1, 0, 2), dp_normal = (0, 1, 0),
            dp_bounds = (1, 1), dp_confidence = 0.85, dp_lastUpdated = 1000 \<rparr>]
        (trackFrames [\<lparr> dp_plane = 7, dp_id = ''a'', dp_center = (1, 0, 2), dp_normal = (0, 1, 0),
                         dp_bounds = (1, 1), dp_confidence = 0.85, dp_lastUpdated = 1000 \<rparr>]
           [([\<lparr> rp_plane = 7, rp_pose = Some ((1, 0, 3), (0, 1, 0)), rp_polygon = None, rp_freshId = ''b'' \<rparr>],
             1016, 1016)])"
proof -
  let ?r1 = "\<lparr> rp_plane = 7, rp_pose = Some ((1, 0, 2), (0, 1, 0)), rp_polygon = None, rp_freshId = ''a'' \<rparr>"
  let ?r2 = "\<lparr> rp_plane = 7, rp_pose = Some ((1, 0, 3), (0, 1, 0)), rp_polygon = None, rp_freshId = ''b'' \<rparr>"
  let ?p = "\<lparr> dp_plane = 7, dp_id = ''a'', dp_center = (1, 0, 2), dp_normal = (0, 1, 0),
              dp_bounds = (1, 1), dp_confidence = 0.85, dp_lastUpdated = 1000 \<rparr>"
  have a: "observePlane 1000 ([], []) ?r1 =
        ([], [\<lparr> dp_plane = 7, dp_id = ''a'', dp_center = (1, 0, 2), dp_normal = (0, 1, 0),
               dp_bounds = (1, 1), dp_confidence = 1, dp_lastUpdated = 1000 \<rparr>])"
    using plane_tracking_confidence[where r = ?r1 and position = "(1, 0, 2)" and up = "(0, 1, 0)"
        and known = "[]" and t = 1000 and np = "[]"]
    by (simp add: planeBounds_def)
  have b: "observePlane 1016 ([?p], []) ?r2 =
        ([\<lparr> dp_plane = 7, dp_id = ''a'', dp_center = (1, 0, 3), dp_normal = (0, 1, 0),
               dp_bounds = (1, 1), dp_confidence = 0.95, dp_lastUpdated = 1016 \<rparr>],
         [\<lparr> dp_plane = 7, dp_id = ''a'', dp_center = (1, 0, 3), dp_normal = (0, 1, 0),
               dp_bounds = (1, 1), dp_confidence = 0.95, dp_lastUpdated = 1016 \<rparr>])"
    using plane_tracking_confidence[where r = ?r2 and position = "(1, 0, 3)" and up = "(0, 1, 0)"
        and known = "[?p]" and dp = ?p and t = 1016 and np = "[]"]
    by (simp add: planeBounds_def)
  have c: "list_all2 tracks [?p] (trackFrames [?p] [([?r2], 1016, 1016)])"
    using plane_tracking_confidence[where known = "[?p]" and frames = "[]"
        and later = "[([?r2], 1016, 1016)]"]
    by (simp add: trackFrames_def)
  have ab: "trackPlanes [] [?r1] 1000 1000
     = ([], [\<lparr> dp_plane = 7, dp_id = ''a'', dp_center = (1, 0, 2), dp_normal = (0, 1, 0),
               dp_bounds = (1, 1), dp_confidence = 1, dp_lastUpdated = 1000 \<rparr>])
   \<and> trackPlanes [?p] [?r2] 1016 1016
     = ([\<lparr> dp_plane = 7, dp_id = ''a'', dp_center = (1, 0, 3), dp_normal = (0, 1, 0),
               dp_bounds = (1, 1), dp_confidence = 0.95, dp_lastUpdated = 1016 \<rparr>],
        [\<lparr> dp_plane = 7, dp_id = ''a'', dp_center = (1, 0, 3), dp_normal = (0, 1, 0),
               dp_bounds = (1, 1), dp_confidence = 0.95, dp_lastUpdated = 1016 \<rparr>])"
    unfolding trackPlanes_def validPlanes_def Let_def foldl.simps a b by simp
  show ?thesis
    using ab c by (intro conjI) (simp_all only: simp_thms)
qed



subsection \<open>Every tracked plane has confidence 1\<close>


lemma replaceFirst_full:
  "\<forall>p \<in> set known. dp_confidence p = 1 \<Longrightarrow> dp_confidence d = 1 \<Longrightarrow>
   \<forall>p \<in> set (replaceFirst pl d known). dp_confidence p = 1"
  by (induction known) simp_all

lemma observePlane_full:
  assumes "\<forall>p \<in> set known. dp_confidence p = 1" "\<forall>p \<in> set np. dp_confidence p = 1"
  shows "(\<forall>p \<in> set (fst (observePlane t (known, np) r)). dp_confidence p = 1)
       \<and> (\<forall>p \<in> set (snd (observePlane t (known, np) r)). dp_confidence p = 1)"
proof (cases "rp_pose r")
  case None
  then show ?thesis using assms by (simp add: observePlane_def)
next
  case (Some pose)
  obtain position up where pose: "pose = (position, up)" by (cases pose)
  show ?thesis
  proof (cases "find (\<lambda>dp. dp_plane dp = rp_plane r) known")
    case None
    then have o: "observePlane t (known, np) r =
        (known, np @ [\<lparr> dp_plane = rp_plane r, dp_id = rp_freshId r, dp_center = position,
                         dp_normal = up, dp_bounds = planeBounds (rp_polygon r),
                         dp_confidence = 1, dp_lastUpdated = t \<rparr>])"
      using Some pose by (simp add: observePlane_def)
    show ?thesis
      unfolding o fst_conv snd_conv using assms by simp
  next
    case (Some dp)
    define u where "u = dp\<lparr> dp_center := position, dp_normal := up, dp_bounds := planeBounds (rp_polygon r),
                  dp_confidence := min (dp_confidence dp + 0.1) 1, dp_lastUpdated := t \<rparr>"
    have o: "observePlane t (known, np) r = (replaceFirst (rp_plane r) u known, np @ [u])"
      using Some \<open>rp_pose r = Some pose\<close> pose by (simp add: observePlane_def Let_def u_def)
    have "dp \<in> set known" using Some by (auto simp: find_Some_iff in_set_conv_nth)
    then have "dp_confidence dp = 1" using assms(1) by simp
    then have u: "dp_confidence u = 1" by (simp add: u_def)
    have rf: "\<forall>p \<in> set (replaceFirst (rp_plane r) u known). dp_confidence p = 1"
      using assms(1) u by (rule replaceFirst_full)
    show ?thesis
      unfolding o fst_conv snd_conv using assms(2) u rf by simp
  qed
qed

lemma foldl_observePlane_full:
  assumes "\<forall>p \<in> set known. dp_confidence p = 1" "\<forall>p \<in> set np. dp_confidence p = 1"
  shows "(\<forall>p \<in> set (fst (foldl (observePlane t) (known, np) rs)). dp_confidence p = 1)
       \<and> (\<forall>p \<in> set (snd (foldl (observePlane t) (known, np) rs)). dp_confidence p = 1)"
  using assms
proof (induction rs arbitrary: known np)
  case Nil
  then show ?case by simp
next
  case (Cons r rs)
  obtain k' np' where o: "observePlane t (known, np) r = (k', np')"
    by (cases "observePlane t (known, np) r")
  have "(\<forall>p \<in> set k'. dp_confidence p = 1) \<and> (\<forall>p \<in> set np'. dp_confidence p = 1)"
    using observePlane_full[OF Cons.prems, of t r] o by simp
  then show ?case
    using Cons.IH[where known = k' and np = np'] o by simp
qed

lemma nativeStep_Frame_planes:
  "detectedPlanes (nativeStep s (Frame (Some rs) t t' hit)) = snd (trackPlanes (loopPlanes s) rs t t')"
  "loopPlanes (nativeStep s (Frame (Some rs) t t' hit)) = fst (trackPlanes (loopPlanes s) rs t t')"
  "detectedPlanes (nativeStep s (Frame None t t' hit)) = detectedPlanes s"
  "loopPlanes (nativeStep s (Frame None t t' hit)) = loopPlanes s"
  by (cases hit; cases "reticle s"; simp add: Let_def)+

lemma placeItem_planes:
  "detectedPlanes (placeItem now s) = detectedPlanes s" "loopPlanes (placeItem now s) = loopPlanes s"
  by (cases "reticle s"; simp add: placeItem_def Let_def split: prod.splits)+

lemma nativeStep_full:
  assumes "\<forall>p \<in> set (detectedPlanes s). dp_confidence p = 1" "\<forall>p \<in> set (loopPlanes s). dp_confidence p = 1"
  shows "(\<forall>p \<in> set (detectedPlanes (nativeStep s i)). dp_confidence p = 1)
       \<and> (\<forall>p \<in> set (loopPlanes (nativeStep s i)). dp_confidence p = 1)"
proof (cases i)
  case ModelLoaded
  then show ?thesis using assms by simp
next
  case StartSession
  then show ?thesis using assms by simp
next
  case (Frame reports t t' hit)
  show ?thesis
  proof (cases reports)
    case None
    then show ?thesis using Frame assms by (simp only: nativeStep_Frame_planes)
  next
    case (Some rs)
    have "(\<forall>p \<in> set (fst (foldl (observePlane t) (loopPlanes s, []) rs)). dp_confidence p = 1)
        \<and> (\<forall>p \<in> set (snd (foldl (observePlane t) (loopPlanes s, []) rs)). dp_confidence p = 1)"
      by (rule foldl_observePlane_full) (use assms in simp_all)
    then show ?thesis
      unfolding Frame Some nativeStep_Frame_planes
      by (simp add: trackPlanes_def validPlanes_def Let_def)
  qed
next
  case (Tap now)
  then show ?thesis using assms by (simp add: placeItem_planes)
next
  case SessionEnd
  then show ?thesis using assms by simp
qed

lemma nativeRun_full:
  assumes "\<forall>p \<in> set (detectedPlanes s). dp_confidence p = 1" "\<forall>p \<in> set (loopPlanes s). dp_confidence p = 1"
  shows "(\<forall>p \<in> set (detectedPlanes (nativeRun s ins)). dp_confidence p = 1)
       \<and> (\<forall>p \<in> set (loopPlanes (nativeRun s ins)). dp_confidence p = 1)"
  using assms unfolding nativeRun_def
proof (induction ins arbitrary: s)
  case Nil
  then show ?case by simp
next
  case (Cons i ins)
  show ?case
    using Cons.IH[of "nativeStep s i"] nativeStep_full[OF Cons.prems, of i] by simp
qed

text \<open>
  Claim C10. In every state that a session reaches from the initial state, every plane of
  the active set has confidence exactly 1: records are created with confidence 1 and an
  update maps 1 to the minimum of 1.1 and 1. In such a state the records that a frame
  builds all have confidence 1, so the cleanup filter removes a record only for its age:
  it equals the filter on the age alone.
\<close>

theorem active_planes_full_confidence:
  "(\<forall>p \<in> set (detectedPlanes (nativeRun (nativeInit it) ins)). dp_confidence p = 1)
   \<and> (let s = nativeRun (nativeInit it) ins;
           newPlanes = snd (foldl (observePlane t) (loopPlanes s, []) rs)
       in (\<forall>p \<in> set newPlanes. dp_confidence p = 1)
        \<and> validPlanes t' newPlanes = filter (\<lambda>plane. t' - dp_lastUpdated plane < 5000) newPlanes
        \<and> detectedPlanes (nativeStep s (Frame (Some rs) t t' hit))
            = filter (\<lambda>plane. t' - dp_lastUpdated plane < 5000) newPlanes)"
proof -
  let ?s = "nativeRun (nativeInit it) ins"
  let ?np = "snd (foldl (observePlane t) (loopPlanes ?s, []) rs)"
  have inv: "(\<forall>p \<in> set (detectedPlanes ?s). dp_confidence p = 1) \<and> (\<forall>p \<in> set (loopPlanes ?s). dp_confidence p = 1)"
    by (rule nativeRun_full) (simp_all add: nativeInit_def)
  have np: "\<forall>p \<in> set ?np. dp_confidence p = 1"
    using foldl_observePlane_full[of "loopPlanes ?s" "[]" t rs] inv by simp
  have v: "validPlanes t' ?np = filter (\<lambda>plane. t' - dp_lastUpdated plane < 5000) ?np"
    unfolding validPlanes_def using np by (intro filter_cong) auto
  have d: "detectedPlanes (nativeStep ?s (Frame (Some rs) t t' hit)) = validPlanes t' ?np"
    by (simp only: nativeStep_Frame_planes) (simp add: trackPlanes_def Let_def)
  show ?thesis
    unfolding Let_def d v using inv np by blast
qed

text \<open>A session in which one frame reports plane 7.\<close>

theorem active_planes_full_confidence_witness:
  "detectedPlanes (nativeRun (nativeInit ())
      [ModelLoaded, StartSession,
       Frame (Some [\<lparr> rp_plane = 7, rp_pose = Some ((1, 0, 2), (0, 1, 0)), rp_polygon = None, rp_freshId = ''a'' \<rparr>])
         1000 1000 None])
   = [\<lparr> dp_plane = 7, dp_id = ''a'', dp_center = (1, 0, 2), dp_normal = (0, 1, 0),
        dp_bounds = (1, 1), dp_confidence = 1, dp_lastUpdated = 1000 \<rparr>]
   \<and> dp_confidence (hd (detectedPlanes (nativeRun (nativeInit ())
      [ModelLoaded, StartSession,
       Frame (Some [\<lparr> rp_plane = 7, rp_pose = Some ((1, 0, 2), (0, 1, 0)), rp_polygon = None, rp_freshId = ''a'' \<rparr>])
         1000 1000 None]))) = 1"
proof -
  let ?r = "\<lparr> rp_plane = 7, rp_pose = Some ((1, 0, 2), (0, 1, 0)), rp_polygon = None, rp_freshId = ''a'' \<rparr>"
  have o: "observePlane 1000 ([], []) ?r =
      ([], [\<lparr> dp_plane = 7, dp_id = ''a'', dp_center = (1, 0, 2), dp_normal = (0, 1, 0),
        dp_bounds = (1, 1), dp_confidence = 1, dp_lastUpdated = 1000 \<rparr>])"
    by (simp add: observePlane_def planeBounds_def)
  have run: "nativeRun (nativeInit ()) [ModelLoaded, StartSession] =
      \<lparr> xrSession = True, objModel = True, reticle = Some ((0, 0, 0), False), detectedPlanes = [],
        loopPlanes = [], arItems = [], isScanning = True, n_selectedItem = () \<rparr>"
    by (simp add: nativeRun_def nativeInit_def)
  have d: "detectedPlanes (nativeRun (nativeInit ()) [ModelLoaded, StartSession, Frame (Some [?r]) 1000 1000 None])
         = detectedPlanes (nativeStep (nativeRun (nativeInit ()) [ModelLoaded, StartSession]) (Frame (Some [?r]) 1000 1000 None))"
    by (simp add: nativeRun_def)
  show ?thesis
    unfolding d
    using active_planes_full_confidence[of "()" "[ModelLoaded, StartSession]" 1000 "[?r]" 1000 None]
    unfolding run Let_def
    by (simp add: o)
qed

subsection \<open>The cleanup filter\<close>

lemma observePlane_reported:
  "dp_plane ` set (snd (observePlane t (known, np) r))
     \<subseteq> dp_plane ` set np \<union> (if rp_pose r = None then {} else {rp_plane r})"
proof (cases "rp_pose r")
  case None
  then show ?thesis by (simp add: observePlane_def)
next
  case (Some pose)
  obtain position up where pose: "pose = (position, up)" by (cases pose)
  show ?thesis
  proof (cases "find (\<lambda>dp. dp_plane dp = rp_plane r) known")
    case None
    then have o: "observePlane t (known, np) r =
        (known, np @ [\<lparr> dp_plane = rp_plane r, dp_id = rp_freshId r, dp_center = position,
                         dp_normal = up, dp_bounds = planeBounds (rp_polygon r),
                         dp_confidence = 1, dp_lastUpdated = t \<rparr>])"
      using Some pose by (simp add: observePlane_def)
    show ?thesis
      unfolding o snd_conv using Some by simp
  next
    case (Some dp)
    define u where "u = dp\<lparr> dp_center := position, dp_normal := up, dp_bounds := planeBounds (rp_polygon r),
                  dp_confidence := min (dp_confidence dp + 0.1) 1, dp_lastUpdated := t \<rparr>"
    have o: "observePlane t (known, np) r = (replaceFirst (rp_plane r) u known, np @ [u])"
      using Some \<open>rp_pose r = Some pose\<close> pose by (simp add: observePlane_def Let_def u_def)
    have "dp_plane dp = rp_plane r"
      using Some by (auto dest: find_Some_iff[THEN iffD1])
    then have u: "dp_plane u = rp_plane r" by (simp add: u_def)
    show ?thesis
      unfolding o snd_conv using u \<open>rp_pose r = Some pose\<close> by simp
  qed
qed

lemma foldl_observePlane_reported:
  "dp_plane ` set (snd (foldl (observePlane t) (known, np) rs))
     \<subseteq> dp_plane ` set np \<union> rp_plane ` {r \<in> set rs. rp_pose r \<noteq> None}"
proof (induction rs arbitrary: known np)
  case Nil
  then show ?case by simp
next
  case (Cons r rs)
  obtain k' np' where o: "observePlane t (known, np) r = (k', np')"
    by (cases "observePlane t (known, np) r")
  define A where "A = (if rp_pose r = None then {} else {rp_plane r})"
  define B where "B = rp_plane ` {x \<in> set rs. rp_pose x \<noteq> None}"
  have e: "rp_plane ` {x \<in> set (r # rs). rp_pose x \<noteq> None} = A \<union> B"
    unfolding A_def B_def by (cases "rp_pose r") auto
  have a: "dp_plane ` set np' \<subseteq> dp_plane ` set np \<union> A"
    unfolding A_def using observePlane_reported[of t known np r] o by simp
  have b: "dp_plane ` set (snd (foldl (observePlane t) (k', np') rs)) \<subseteq> dp_plane ` set np' \<union> B"
    unfolding B_def by (rule Cons.IH)
  have "dp_plane ` set (snd (foldl (observePlane t) (k', np') rs)) \<subseteq> dp_plane ` set np \<union> (A \<union> B)"
    using a b by blast
  then show ?case
    unfolding e foldl.simps o .
qed

text \<open>
  Claim C8, as stated, fails. A plane updated exactly 5000ms ago, with confidence 1, is
  neither more than 5000ms old nor below 0.3 in confidence, yet the filter drops it. And a
  plane of the active set that the next frame does not report is dropped at an age of
  16ms and with confidence 1: the active set is rebuilt from the reports of each frame.
\<close>

theorem expiry_boundary_counterexample:
  "validPlanes 6000 [\<lparr> dp_plane = 7, dp_id = ''a'', dp_center = (1, 0, 2), dp_normal = (0, 1, 0),
                       dp_bounds = (1, 1), dp_confidence = 1, dp_lastUpdated = 1000 \<rparr>] = []
   \<and> \<not> (6000 - 1000 > (5000::int)) \<and> \<not> ((1::real) < 0.3)
   \<and> detectedPlanes (nativeRun (nativeInit ())
        [ModelLoaded, StartSession,
         Frame (Some [\<lparr> rp_plane = 7, rp_pose = Some ((1, 0, 2), (0, 1, 0)), rp_polygon = None, rp_freshId = ''a'' \<rparr>])
           1000 1000 None])
      = [\<lparr> dp_plane = 7, dp_id = ''a'', dp_center = (1, 0, 2), dp_normal = (0, 1, 0),
           dp_bounds = (1, 1), dp_confidence = 1, dp_lastUpdated = 1000 \<rparr>]
   \<and> detectedPlanes (nativeRun (nativeInit ())
        [ModelLoaded, StartSession,
         Frame (Some [\<lparr> rp_plane = 7, rp_pose = Some ((1, 0, 2), (0, 1, 0)), rp_polygon = None, rp_freshId = ''a'' \<rparr>])
           1000 1000 None,
         Frame (Some []) 1016 1016 None])
      = []"
proof -
  let ?r = "\<lparr> rp_plane = 7, rp_pose = Some ((1, 0, 2), (0, 1, 0)), rp_polygon = None, rp_freshId = ''a'' \<rparr>"
  have o: "observePlane 1000 ([], []) ?r =
      ([], [\<lparr> dp_plane = 7, dp_id = ''a'', dp_center = (1, 0, 2), dp_normal = (0, 1, 0),
        dp_bounds = (1, 1), dp_confidence = 1, dp_lastUpdated = 1000 \<rparr>])"
    by (simp add: observePlane_def planeBounds_def)
  have t1: "trackPlanes [] [?r] 1000 1000 =
      ([], [\<lparr> dp_plane = 7, dp_id = ''a'', dp_center = (1, 0, 2), dp_normal = (0, 1, 0),
        dp_bounds = (1, 1), dp_confidence = 1, dp_lastUpdated = 1000 \<rparr>])"
    unfolding trackPlanes_def Let_def foldl.simps o by (simp add: validPlanes_def)
  have t2: "trackPlanes [] [] 1016 1016 = ([], [])"
    by (simp add: trackPlanes_def validPlanes_def)
  have a: "validPlanes 6000 [\<lparr> dp_plane = 7, dp_id = ''a'', dp_center = (1, 0, 2), dp_normal = (0, 1, 0),
                       dp_bounds = (1, 1), dp_confidence = 1, dp_lastUpdated = 1000 \<rparr>] = []"
    by (simp add: validPlanes_def)
  have b: "detectedPlanes (nativeRun (nativeInit ()) [ModelLoaded, StartSession, Frame (Some [?r]) 1000 1000 None])
      = [\<lparr> dp_plane = 7, dp_id = ''a'', dp_center = (1, 0, 2), dp_normal = (0, 1, 0),
           dp_bounds = (1, 1), dp_confidence = 1, dp_lastUpdated = 1000 \<rparr>]"
    by (simp add: nativeRun_def nativeInit_def t1)
  have c: "detectedPlanes (nativeRun (nativeInit ())
        [ModelLoaded, StartSession, Frame (Some [?r]) 1000 1000 None, Frame (Some []) 1016 1016 None]) = []"
    by (simp add: nativeRun_def nativeInit_def t1 t2)
  show ?thesis
    using a b c by simp
qed

text \<open>
  The list that the \<^verbatim>\<open>forEach\<close> builds has one record for each plane that the frame
  reports with a pose, in the order of the reports, and every record carries the clock
  reading of the frame.
\<close>

lemma observePlane_step:
  "rp_pose r = None \<Longrightarrow> observePlane t (known, np) r = (known, np)"
  "rp_pose r \<noteq> None \<Longrightarrow>
     \<exists>k d. observePlane t (known, np) r = (k, np @ [d]) \<and> dp_plane d = rp_plane r \<and> dp_lastUpdated d = t"
proof -
  show "rp_pose r = None \<Longrightarrow> observePlane t (known, np) r = (known, np)"
    by (simp add: observePlane_def)
  assume "rp_pose r \<noteq> None"
  then obtain position up where pose: "rp_pose r = Some (position, up)" by (cases "rp_pose r") auto
  show "\<exists>k d. observePlane t (known, np) r = (k, np @ [d]) \<and> dp_plane d = rp_plane r \<and> dp_lastUpdated d = t"
  proof (cases "find (\<lambda>dp. dp_plane dp = rp_plane r) known")
    case None
    define d where "d = \<lparr> dp_plane = rp_plane r, dp_id = rp_freshId r, dp_center = position,
                         dp_normal = up, dp_bounds = planeBounds (rp_polygon r),
                         dp_confidence = 1, dp_lastUpdated = t \<rparr>"
    have o: "observePlane t (known, np) r = (known, np @ [d])"
      using None pose by (simp add: observePlane_def d_def)
    have "dp_plane d = rp_plane r" "dp_lastUpdated d = t" by (simp_all add: d_def)
    then show ?thesis using o by blast
  next
    case (Some dp)
    define u where "u = dp\<lparr> dp_center := position, dp_normal := up, dp_bounds := planeBounds (rp_polygon r),
                  dp_confidence := min (dp_confidence dp + 0.1) 1, dp_lastUpdated := t \<rparr>"
    have o: "observePlane t (known, np) r = (replaceFirst (rp_plane r) u known, np @ [u])"
      using Some pose by (simp add: observePlane_def Let_def u_def)
    have "dp_plane dp = rp_plane r"
      using Some by (auto dest: find_Some_iff[THEN iffD1])
    then have "dp_plane u = rp_plane r" "dp_lastUpdated u = t" by (simp_all add: u_def)
    then show ?thesis using o by blast
  qed
qed

lemma foldl_observePlane_map:
  "map dp_plane (snd (foldl (observePlane t) (known, np) rs))
     = map dp_plane np @ map rp_plane (filter (\<lambda>r. rp_pose r \<noteq> None) rs)"
proof (induction rs arbitrary: known np)
  case Nil
  then show ?case by simp
next
  case (Cons r rs)
  show ?case
  proof (cases "rp_pose r = None")
    case True
    show ?thesis
      unfolding foldl.simps observePlane_step(1)[OF True] using Cons.IH[of known np] True by simp
  next
    case False
    obtain k d where o: "observePlane t (known, np) r = (k, np @ [d])" and d: "dp_plane d = rp_plane r"
      using observePlane_step(2)[OF False, of t known np] by blast
    show ?thesis
      unfolding foldl.simps o using Cons.IH[of k "np @ [d]"] False d by simp
  qed
qed

lemma foldl_observePlane_stamp:
  "\<forall>d \<in> set np. dp_lastUpdated d = t \<Longrightarrow>
   \<forall>d \<in> set (snd (foldl (observePlane t) (known, np) rs)). dp_lastUpdated d = t"
proof (induction rs arbitrary: known np)
  case Nil
  then show ?case by simp
next
  case (Cons r rs)
  show ?case
  proof (cases "rp_pose r = None")
    case True
    show ?thesis
      unfolding foldl.simps observePlane_step(1)[OF True] using Cons by blast
  next
    case False
    obtain k d where o: "observePlane t (known, np) r = (k, np @ [d])" and d: "dp_lastUpdated d = t"
      using observePlane_step(2)[OF False, of t known np] by blast
    have "\<forall>x \<in> set (np @ [d]). dp_lastUpdated x = t" using Cons.prems d by simp
    then show ?thesis
      unfolding foldl.simps o by (rule Cons.IH)
  qed
qed

lemma validPlanes_criterion:
  "validPlanes n xs = filter (\<lambda>p. \<not> (5000 \<le> n - dp_lastUpdated p \<or> dp_confidence p \<le> 0.3)) xs"
  unfolding validPlanes_def by (intro filter_cong) auto

lemma frame_rebuild:
  assumes np: "np = snd (foldl (observePlane t) (loopPlanes q, []) rs)"
  shows "detectedPlanes (nativeStep q (Frame (Some rs) t t' hit)) = validPlanes t' np"
    and "map dp_plane np = map rp_plane (filter (\<lambda>r. rp_pose r \<noteq> None) rs)"
    and "\<forall>d \<in> set np. dp_lastUpdated d = t"
    and "\<forall>d \<in> set np. d \<in> set (validPlanes t' np) \<longleftrightarrow> \<not> (5000 \<le> t' - t \<or> dp_confidence d \<le> 0.3)"
    and "dp_plane ` set (validPlanes t' np) \<subseteq> rp_plane ` {r \<in> set rs. rp_pose r \<noteq> None}"
proof -
  show "detectedPlanes (nativeStep q (Frame (Some rs) t t' hit)) = validPlanes t' np"
    unfolding np by (simp only: nativeStep_Frame_planes) (simp add: trackPlanes_def Let_def)
  show "map dp_plane np = map rp_plane (filter (\<lambda>r. rp_pose r \<noteq> None) rs)"
    unfolding np using foldl_observePlane_map[of t "loopPlanes q" "[]" rs] by simp
  show st: "\<forall>d \<in> set np. dp_lastUpdated d = t"
    unfolding np by (rule foldl_observePlane_stamp) simp
  show "\<forall>d \<in> set np. d \<in> set (validPlanes t' np) \<longleftrightarrow> \<not> (5000 \<le> t' - t \<or> dp_confidence d \<le> 0.3)"
    using st by (auto simp: validPlanes_def)
  have "dp_plane ` set (validPlanes t' np) \<subseteq> dp_plane ` set np"
    by (auto simp: validPlanes_def)
  then show "dp_plane ` set (validPlanes t' np) \<subseteq> rp_plane ` {r \<in> set rs. rp_pose r \<noteq> None}"
    unfolding np using foldl_observePlane_reported[of t "loopPlanes q" "[]" rs] by auto
qed

text \<open>
  Claim C8, amended. On each frame the active set is rebuilt from the planes that the
  frame reports with a pose, one record for each: a record is dropped when it was updated
  5000ms ago or earlier or when its confidence is 0.3 or less, and every other record is
  retained; no plane that the frame does not report is in the new active set. In a
  session, where every confidence is 1, the new active set has exactly the planes that
  the frame reports with a pose when the filter runs less than 5000ms after the update,
  and is empty otherwise.
\<close>

theorem expiry_filter:
  "validPlanes now ps = filter (\<lambda>p. \<not> (5000 \<le> now - dp_lastUpdated p \<or> dp_confidence p \<le> 0.3)) ps
   \<and> (let newPlanes = snd (foldl (observePlane t) (loopPlanes s, []) rs);
            s' = nativeStep s (Frame (Some rs) t t' hit)
        in detectedPlanes s' = validPlanes t' newPlanes
         \<and> map dp_plane newPlanes = map rp_plane (filter (\<lambda>r. rp_pose r \<noteq> None) rs)
         \<and> (\<forall>d \<in> set newPlanes. dp_lastUpdated d = t)
         \<and> (\<forall>d \<in> set newPlanes.
               d \<in> set (detectedPlanes s') \<longleftrightarrow> \<not> (5000 \<le> t' - t \<or> dp_confidence d \<le> 0.3))
         \<and> dp_plane ` set (detectedPlanes s') \<subseteq> rp_plane ` {r \<in> set rs. rp_pose r \<noteq> None})
   \<and> (let s0 = nativeRun (nativeInit it) ins;
            s' = nativeStep s0 (Frame (Some rs) t t' hit)
        in (t' - t < 5000 \<longrightarrow>
              map dp_plane (detectedPlanes s') = map rp_plane (filter (\<lambda>r. rp_pose r \<noteq> None) rs))
         \<and> (5000 \<le> t' - t \<longrightarrow> detectedPlanes s' = []))"
proof -
  let ?np = "snd (foldl (observePlane t) (loopPlanes s, []) rs)"
  let ?start = "nativeRun (nativeInit it) ins"
  let ?reached = "snd (foldl (observePlane t) (loopPlanes ?start, []) rs)"
  have g: "detectedPlanes (nativeStep s (Frame (Some rs) t t' hit)) = validPlanes t' ?np"
      "map dp_plane ?np = map rp_plane (filter (\<lambda>r. rp_pose r \<noteq> None) rs)"
      "\<forall>d \<in> set ?np. dp_lastUpdated d = t"
      "\<forall>d \<in> set ?np. d \<in> set (validPlanes t' ?np) \<longleftrightarrow> \<not> (5000 \<le> t' - t \<or> dp_confidence d \<le> 0.3)"
      "dp_plane ` set (validPlanes t' ?np) \<subseteq> rp_plane ` {r \<in> set rs. rp_pose r \<noteq> None}"
    by (rule frame_rebuild[OF refl])+
  have g0: "detectedPlanes (nativeStep ?start (Frame (Some rs) t t' hit)) = validPlanes t' ?reached"
      "map dp_plane ?reached = map rp_plane (filter (\<lambda>r. rp_pose r \<noteq> None) rs)"
      "\<forall>d \<in> set ?reached. dp_lastUpdated d = t"
    by (rule frame_rebuild[OF refl])+
  have inv: "\<forall>p \<in> set (loopPlanes ?start). dp_confidence p = 1"
    using nativeRun_full[of "nativeInit it" ins] by (simp add: nativeInit_def)
  have full: "\<forall>p \<in> set ?reached. dp_confidence p = 1"
    using foldl_observePlane_full[of "loopPlanes ?start" "[]" t rs] inv by simp
  have keep: "validPlanes t' ?reached = ?reached" if "t' - t < 5000"
    unfolding validPlanes_def using that full g0(3) by (intro filter_True) auto
  have drop: "validPlanes t' ?reached = []" if "5000 \<le> t' - t"
    unfolding validPlanes_def using that g0(3) by (intro filter_False) auto
  have reach: "(t' - t < 5000 \<longrightarrow>
              map dp_plane (detectedPlanes (nativeStep ?start (Frame (Some rs) t t' hit)))
                = map rp_plane (filter (\<lambda>r. rp_pose r \<noteq> None) rs))
         \<and> (5000 \<le> t' - t \<longrightarrow> detectedPlanes (nativeStep ?start (Frame (Some rs) t t' hit)) = [])"
    unfolding g0(1) using keep drop g0(2) by simp
  have gen: "detectedPlanes (nativeStep s (Frame (Some rs) t t' hit)) = validPlanes t' ?np
         \<and> map dp_plane ?np = map rp_plane (filter (\<lambda>r. rp_pose r \<noteq> None) rs)
         \<and> (\<forall>d \<in> set ?np. dp_lastUpdated d = t)
         \<and> (\<forall>d \<in> set ?np.
               d \<in> set (detectedPlanes (nativeStep s (Frame (Some rs) t t' hit)))
                 \<longleftrightarrow> \<not> (5000 \<le> t' - t \<or> dp_confidence d \<le> 0.3))
         \<and> dp_plane ` set (detectedPlanes (nativeStep s (Frame (Some rs) t t' hit)))
               \<subseteq> rp_plane ` {r \<in> set rs. rp_pose r \<noteq> None}"
    unfolding g(1) using g(2-5) by blast
  show ?thesis
    unfolding Let_def using validPlanes_criterion[of now ps] gen reach by blast
qed

text \<open>
  Two records of age 16ms, one of confidence 0.3; and a session whose second frame reports
  planes 7 and 8 with a pose and plane 9 without one.
\<close>

theorem expiry_filter_witness:
  "validPlanes 1016
     [\<lparr> dp_plane = 7, dp_id = ''a'', dp_center = (1, 0, 2), dp_normal = (0, 1, 0),
        dp_bounds = (1, 1), dp_confidence = 1, dp_lastUpdated = 1000 \<rparr>,
      \<lparr> dp_plane = 9, dp_id = ''c'', dp_center = (1, 0, 2), dp_normal = (0, 1, 0),
        dp_bounds = (1, 1), dp_confidence = 0.3, dp_lastUpdated = 1000 \<rparr>]
   = [\<lparr> dp_plane = 7, dp_id = ''a'', dp_center = (1, 0, 2), dp_normal = (0, 1, 0),
        dp_bounds = (1, 1), dp_confidence = 1, dp_lastUpdated = 1000 \<rparr>]
   \<and> map dp_plane (detectedPlanes (nativeStep
         (nativeRun (nativeInit ())
            [ModelLoaded, StartSession,
             Frame (Some [\<lparr> rp_plane = 7, rp_pose = Some ((1, 0, 2), (0, 1, 0)), rp_polygon = None,
                             rp_freshId = ''a'' \<rparr>]) 1000 1000 None])
         (Frame (Some [\<lparr> rp_plane = 7, rp_pose = Some ((1, 0, 3), (0, 1, 0)), rp_polygon = None,
                         rp_freshId = ''b'' \<rparr>,
                       \<lparr> rp_plane = 8, rp_pose = Some ((4, 0, 1), (0, 1, 0)), rp_polygon = None,
                         rp_freshId = ''c'' \<rparr>,
                       \<lparr> rp_plane = 9, rp_pose = None, rp_polygon = None, rp_freshId = ''d'' \<rparr>])
            1016 1016 None)))
     = [7, 8]"
  using expiry_filter[where now = 1016
     and ps = "[\<lparr> dp_plane = 7, dp_id = ''a'', dp_center = (1, 0, 2), dp_normal = (0, 1, 0),
        dp_bounds = (1, 1), dp_confidence = 1, dp_lastUpdated = 1000 \<rparr>,
      \<lparr> dp_plane = 9, dp_id = ''c'', dp_center = (1, 0, 2), dp_normal = (0, 1, 0),
        dp_bounds = (1, 1), dp_confidence = 0.3, dp_lastUpdated = 1000 \<rparr>]"
     and it = "()"
     and ins = "[ModelLoaded, StartSession,
             Frame (Some [\<lparr> rp_plane = 7, rp_pose = Some ((1, 0, 2), (0, 1, 0)), rp_polygon = None,
                             rp_freshId = ''a'' \<rparr>]) 1000 1000 None]"
     and rs = "[\<lparr> rp_plane = 7, rp_pose = Some ((1, 0, 3), (0, 1, 0)), rp_polygon = None,
                         rp_freshId = ''b'' \<rparr>,
                       \<lparr> rp_plane = 8, rp_pose = Some ((4, 0, 1), (0, 1, 0)), rp_polygon = None,
                         rp_freshId = ''c'' \<rparr>,
                       \<lparr> rp_plane = 9, rp_pose = None, rp_polygon = None, rp_freshId = ''d'' \<rparr>]"
     and t = 1016 and t' = 1016 and hit = None and s = "nativeInit ()"]
  unfolding Let_def by simp


end
